theory Spec2Isabelle
  imports Main
begin

section \<open>Strings\<close>

text \<open>
  A Python \<open>str\<close> is modelled as a \<open>string\<close>, one list element per character, so that
  \<open>length\<close> is Python's \<open>len\<close>. HOL characters have eight bits: the whitespace test
  below is \<open>str.isspace\<close> on the code points below 256.
\<close>

definition is_space :: "char \<Rightarrow> bool" where
  "is_space c =
     (let n = (of_char c :: nat)
      in (9 \<le> n \<and> n \<le> 13) \<or> (28 \<le> n \<and> n \<le> 32) \<or> n = 133 \<or> n = 160)"

text \<open>\<open>s.strip()\<close>: whitespace removed at both ends.\<close>

definition strip :: "string \<Rightarrow> string" where
  "strip s = rev (dropWhile is_space (rev (dropWhile is_space s)))"

text \<open>
  \<open>s.split()\<close> without a separator: the maximal runs of non-whitespace characters, in
  order; runs of whitespace separate them and give no empty word. The first argument
  is the word being read.
\<close>

fun split_ws :: "string \<Rightarrow> string \<Rightarrow> string list" where
  "split_ws w [] = (if w = [] then [] else [w])"
| "split_ws w (c # cs) =
     (if is_space c then (if w = [] then split_ws [] cs else w # split_ws [] cs)
      else split_ws (w @ [c]) cs)"

definition split :: "string \<Rightarrow> string list" where
  "split s = split_ws [] s"

text \<open>\<open>sep.join(xs)\<close>.\<close>

fun join :: "string \<Rightarrow> string list \<Rightarrow> string" where
  "join sep [] = []"
| "join sep [x] = x"
| "join sep (x # y # ys) = x @ sep @ join sep (y # ys)"

text \<open>\<open>s[i:j]\<close> for \<open>0 \<le> i\<close> and \<open>0 \<le> j\<close>: indices beyond the end are clipped.\<close>

definition slice :: "string \<Rightarrow> nat \<Rightarrow> nat \<Rightarrow> string" where
  "slice s i j = take (j - i) (drop i s)"

text \<open>
  \<open>s.rfind(c)\<close>: the highest index at which \<open>c\<close> occurs, \<open>-1\<close> when it does not.
  \<open>rfind_from\<close> scans from the left with the index of the current character and the
  best index so far.
\<close>

fun rfind_from :: "char \<Rightarrow> string \<Rightarrow> int \<Rightarrow> int \<Rightarrow> int" where
  "rfind_from c [] i best = best"
| "rfind_from c (x # xs) i best = rfind_from c xs (i + 1) (if x = c then i else best)"

definition rfind :: "string \<Rightarrow> char \<Rightarrow> int" where
  "rfind s c = rfind_from c s 0 (- 1)"

section \<open>The chunker: \<open>split_text\<close> of \<open>ingest_qdrant_cloud.py\<close>\<close>

definition CHUNK_SIZE :: nat where
  "CHUNK_SIZE = 800"

definition CHUNK_OVERLAP :: nat where
  "CHUNK_OVERLAP = 100"

text \<open>The first statement of \<open>split_text\<close>: \<open>" ".join(text.strip().split())\<close>.\<close>

definition normalize_text :: "string \<Rightarrow> string" where
  "normalize_text text = join '' '' (split (strip text))"

text \<open>
  One pass through the body of the \<open>while\<close> loop, up to \<open>chunks.append(chunk)\<close>: the
  chunk that is appended and the value of \<open>end\<close> at that point. The two module
  constants are the parameters \<open>csize\<close> and \<open>overlap\<close>, so that the loop can be studied
  for every configuration.
\<close>

definition window :: "nat \<Rightarrow> string \<Rightarrow> nat \<Rightarrow> string \<times> nat" where
  "window csize text start =
     (let end = start + csize;
          chunk = slice text start end
      in if end < length text
         then (let last_space = rfind chunk CHR '' ''
               in if last_space \<noteq> - 1
                  then (take (nat last_space) chunk, start + nat last_space)
                  else (chunk, end))
         else (chunk, end))"

text \<open>The last statement of the body: \<open>start = max(end - CHUNK_OVERLAP, end)\<close>.\<close>

definition next_start :: "nat \<Rightarrow> nat \<Rightarrow> nat" where
  "next_start overlap end = nat (max (int end - int overlap) (int end))"

text \<open>
  The \<open>while\<close> loop with its two variables \<open>start\<close> and \<open>chunks\<close>. The result is
  \<open>None\<close> when the loop runs forever.
\<close>

partial_function (option) split_loop ::
  "nat \<Rightarrow> nat \<Rightarrow> string \<Rightarrow> nat \<Rightarrow> string list \<Rightarrow> string list option" where
  "split_loop csize overlap text start chunks =
     (if start < length text
      then (case window csize text start of
              (chunk, end) \<Rightarrow> split_loop csize overlap text (next_start overlap end) (chunks @ [chunk]))
      else Some chunks)"

definition split_text_with :: "nat \<Rightarrow> nat \<Rightarrow> string \<Rightarrow> string list option" where
  "split_text_with csize overlap text =
     (let text' = normalize_text text
      in if text' = [] then Some [] else split_loop csize overlap text' 0 [])"

definition split_text :: "string \<Rightarrow> string list option" where
  "split_text text = split_text_with CHUNK_SIZE CHUNK_OVERLAP text"


text \<open>
  The same loop, recording beside every appended chunk the value of \<open>start\<close> at which it
  was cut: the chunk's start offset in the normalized text. Its end offset is the start
  offset plus its length. Lemma \<open>split_loop_trace\<close> shows that the chunks of this record are
  the chunks \<open>split_loop\<close> returns.
\<close>

partial_function (option) split_trace ::
  "nat \<Rightarrow> nat \<Rightarrow> string \<Rightarrow> nat \<Rightarrow> (nat \<times> string) list \<Rightarrow> (nat \<times> string) list option" where
  "split_trace csize overlap text start acc =
     (if start < length text
      then (case window csize text start of
              (chunk, end) \<Rightarrow>
                split_trace csize overlap text (next_start overlap end) (acc @ [(start, chunk)]))
      else Some acc)"

text \<open>
  \<open>tiles a tr b\<close>: the recorded chunks lie end to end from offset \<open>a\<close> to offset \<open>b\<close>, each
  starting where the one before it ends.
\<close>

fun tiles :: "nat \<Rightarrow> (nat \<times> string) list \<Rightarrow> nat \<Rightarrow> bool" where
  "tiles a [] b = (a = b)"
| "tiles a ((s, c) # tr) b = (s = a \<and> tiles (a + length c) tr b)"

text \<open>A recorded chunk is the text at its offset, is not empty and fits the window.\<close>

definition chunk_at :: "nat \<Rightarrow> string \<Rightarrow> nat \<times> string \<Rightarrow> bool" where
  "chunk_at csize text p =
     (case p of (s, c) \<Rightarrow> c = slice text s (s + length c) \<and> c \<noteq> [] \<and> length c \<le> csize)"

text \<open>Two inputs used below: a word of 800 letters after a short word, and three blocks.\<close>

definition long_word_text :: string where
  "long_word_text = ''a '' @ replicate 800 (CHR ''b'')"

definition block_text :: string where
  "block_text = replicate 800 (CHR ''a'') @ replicate 800 (CHR ''b'') @ ''c''"

section \<open>Exceptions, payloads and the vector store\<close>

text \<open>
  The exceptions the scripts can meet. \<open>UnexpectedResponse\<close> is the Qdrant client's
  exception for an HTTP answer, with its \<open>status_code\<close>; \<open>MissingEnv\<close> is the
  \<open>RuntimeError\<close> raised for an unset environment variable; \<open>Failure\<close> stands for any
  other \<open>Exception\<close> (a network error, an error of the embedding service).
\<close>

datatype exn = UnexpectedResponse nat | IndexError | MissingEnv string | Failure string

datatype pyval = PyStr string | PyInt int

type_synonym payload = "(string \<times> pyval) list"

datatype distance = COSINE | DOT | EUCLID

text \<open>
  \<open>info.config.params.vectors\<close> of a collection: one \<open>VectorParams\<close>, a dictionary of
  named ones, or \<open>None\<close>.
\<close>

datatype vectors_config =
  VectorParams nat distance | NamedVectors "(string \<times> nat \<times> distance) list" | NoVectors

datatype point_id = IntId nat | UuidId string

type_synonym 'v point = "point_id \<times> 'v \<times> payload"

record 'v collection =
  vectors_of :: vectors_config
  points :: "point_id \<rightharpoonup> 'v \<times> payload"

datatype 'v call =
  GetCollection string
| CreateCollection string nat distance
| DeleteCollection string
| Upsert string "'v point list"

text \<open>Every \<open>print\<close> of the scripts, with the values it interpolates.\<close>

datatype msg =
  CollectionExists "nat option"
| DimensionMismatch "nat option" nat
| CollectionAbsent
| CollectionCreated
| IngestStart
| InputDir
| FilesFound nat
| NoFiles
| FileHeader nat string
| EmptySkip
| EmbeddingError exn
| Loaded nat
| Reusing
| NotFoundCreating
| Created
| InitCollection
| Prepared nat
| Processing nat nat
| LoadedInto nat
| Done
| Recreated

text \<open>
  The world the scripts act on: the collections of the Qdrant server, the calls the client
  has made, the standard output, and \<open>faults\<close>, the fate of the coming calls: the
  \<open>n\<close>-th entry \<open>Some e\<close> makes the \<open>n\<close>-th coming call raise \<open>e\<close> without reaching the
  server (a network or authentication failure), \<open>None\<close> or no entry lets it through.
\<close>

record 'v world =
  collections :: "string \<rightharpoonup> 'v collection"
  faults :: "exn option list"
  calls :: "'v call list"
  stdout :: "msg list"

definition print :: "msg \<Rightarrow> 'v world \<Rightarrow> 'v world" where
  "print m w = w\<lparr>stdout := stdout w @ [m]\<rparr>"

definition request :: "'v call \<Rightarrow> 'v world \<Rightarrow> exn option \<times> 'v world" where
  "request c w =
     (case faults w of
        [] \<Rightarrow> (None, w\<lparr>calls := calls w @ [c]\<rparr>)
      | f # fs \<Rightarrow> (f, w\<lparr>faults := fs, calls := calls w @ [c]\<rparr>))"

text \<open>The client's operations. A collection that does not exist answers 404.\<close>

definition get_collection :: "string \<Rightarrow> 'v world \<Rightarrow> (exn + 'v collection) \<times> 'v world" where
  "get_collection name w =
     (case request (GetCollection name) w of
        (Some e, w') \<Rightarrow> (Inl e, w')
      | (None, w') \<Rightarrow>
          (case collections w' name of
             None \<Rightarrow> (Inl (UnexpectedResponse 404), w')
           | Some c \<Rightarrow> (Inr c, w')))"

definition new_collection :: "nat \<Rightarrow> distance \<Rightarrow> 'v collection" where
  "new_collection dim dist = \<lparr>vectors_of = VectorParams dim dist, points = Map.empty\<rparr>"

definition create_collection ::
  "string \<Rightarrow> nat \<Rightarrow> distance \<Rightarrow> 'v world \<Rightarrow> (exn + unit) \<times> 'v world" where
  "create_collection name dim dist w =
     (case request (CreateCollection name dim dist) w of
        (Some e, w') \<Rightarrow> (Inl e, w')
      | (None, w') \<Rightarrow>
          (case collections w' name of
             Some c \<Rightarrow> (Inl (UnexpectedResponse 409), w')
           | None \<Rightarrow>
               (Inr (), w'\<lparr>collections := (collections w')(name \<mapsto> new_collection dim dist)\<rparr>)))"

text \<open>
  \<open>delete_collection\<close> removes the collection; deleting one that does not exist is not an
  error. The client's \<open>recreate_collection\<close> is \<open>delete_collection\<close> followed by
  \<open>create_collection\<close>: when the second request fails, the collection stays deleted.
\<close>

definition delete_collection :: "string \<Rightarrow> 'v world \<Rightarrow> (exn + unit) \<times> 'v world" where
  "delete_collection name w =
     (case request (DeleteCollection name) w of
        (Some e, w') \<Rightarrow> (Inl e, w')
      | (None, w') \<Rightarrow> (Inr (), w'\<lparr>collections := (collections w')(name := None)\<rparr>))"

definition recreate_collection ::
  "string \<Rightarrow> nat \<Rightarrow> distance \<Rightarrow> 'v world \<Rightarrow> (exn + unit) \<times> 'v world" where
  "recreate_collection name dim dist w =
     (case delete_collection name w of
        (Inl e, w') \<Rightarrow> (Inl e, w')
      | (Inr u, w') \<Rightarrow> create_collection name dim dist w')"

fun store_points :: "'v point list \<Rightarrow> (point_id \<rightharpoonup> 'v \<times> payload) \<Rightarrow> (point_id \<rightharpoonup> 'v \<times> payload)" where
  "store_points [] m = m"
| "store_points ((i, v, p) # ps) m = store_points ps (m(i \<mapsto> (v, p)))"

definition upsert :: "string \<Rightarrow> 'v point list \<Rightarrow> 'v world \<Rightarrow> (exn + unit) \<times> 'v world" where
  "upsert name ps w =
     (case request (Upsert name ps) w of
        (Some e, w') \<Rightarrow> (Inl e, w')
      | (None, w') \<Rightarrow>
          (case collections w' name of
             None \<Rightarrow> (Inl (UnexpectedResponse 404), w')
           | Some c \<Rightarrow>
               (Inr (), w'\<lparr>collections :=
                   (collections w')(name \<mapsto> c\<lparr>points := store_points ps (points c)\<rparr>)\<rparr>)))"

section \<open>\<open>ensure_collection\<close> of \<open>ingest_qdrant_cloud.py\<close>\<close>

definition COLLECTION_NAME :: string where
  "COLLECTION_NAME = ''moedelo_reforma_2026''"

definition EMBEDDING_DIM :: nat where
  "EMBEDDING_DIM = 1536"

text \<open>
  The lines that read \<open>size\<close> from \<open>vectors\<close>: its \<open>size\<close> attribute, else the size of the
  first value of the dictionary (\<open>list(vectors.values())[0]\<close> raises \<open>IndexError\<close> on an
  empty one), else \<open>size\<close> stays \<open>None\<close>.
\<close>

fun vector_size :: "vectors_config \<Rightarrow> exn + nat option" where
  "vector_size (VectorParams n d) = Inr (Some n)"
| "vector_size (NamedVectors []) = Inl IndexError"
| "vector_size (NamedVectors ((k, n, d) # vs)) = Inr (Some n)"
| "vector_size NoVectors = Inr None"

text \<open>
  The \<open>try\<close> block fetches the collection and reports its size; \<open>except UnexpectedResponse\<close>
  creates the collection on status 404 and raises again on any other status. An exception
  of another class is not caught.
\<close>

definition ensure_collection :: "'v world \<Rightarrow> (exn + unit) \<times> 'v world" where
  "ensure_collection w =
     (case get_collection COLLECTION_NAME w of
        (Inr info, w1) \<Rightarrow>
          (case vector_size (vectors_of info) of
             Inl e \<Rightarrow> (Inl e, w1)
           | Inr size' \<Rightarrow>
               (let w2 = print (CollectionExists size') w1
                in if size' \<noteq> Some EMBEDDING_DIM
                   then (Inr (), print (DimensionMismatch size' EMBEDDING_DIM) w2)
                   else (Inr (), w2)))
      | (Inl (UnexpectedResponse status_code), w1) \<Rightarrow>
          (if status_code = 404
           then (case create_collection COLLECTION_NAME EMBEDDING_DIM COSINE (print CollectionAbsent w1) of
                   (Inl e, w2) \<Rightarrow> (Inl e, w2)
                 | (Inr u, w2) \<Rightarrow> (Inr (), print CollectionCreated w2))
           else (Inl (UnexpectedResponse status_code), w1))
      | (Inl e, w1) \<Rightarrow> (Inl e, w1))"

section \<open>\<open>ensure_collection\<close> of \<open>ingest_qdrant.py\<close>\<close>

text \<open>
  Here \<open>except Exception\<close> catches every failure of the fetch. \<open>name\<close> is the module's
  \<open>COLLECTION_NAME\<close>, read from the environment.
\<close>

definition ingest_qdrant_ensure_collection :: "string \<Rightarrow> 'v world \<Rightarrow> (exn + unit) \<times> 'v world" where
  "ingest_qdrant_ensure_collection name w =
     (case get_collection name w of
        (Inr info, w1) \<Rightarrow> (Inr (), print Reusing w1)
      | (Inl e, w1) \<Rightarrow>
          (case create_collection name EMBEDDING_DIM COSINE (print NotFoundCreating w1) of
             (Inl e', w2) \<Rightarrow> (Inl e', w2)
           | (Inr u, w2) \<Rightarrow> (Inr (), print Created w2)))"

section \<open>\<open>main\<close> of \<open>create_collection_moedelo.py\<close>\<close>

text \<open>\<open>not x\<close> for a value of \<open>os.getenv\<close>: unset or empty.\<close>

definition unset :: "string option \<Rightarrow> bool" where
  "unset x = (x = None \<or> x = Some [])"

definition main :: "string option \<Rightarrow> string option \<Rightarrow> string \<Rightarrow> 'v world \<Rightarrow> (exn + unit) \<times> 'v world" where
  "main QDRANT_URL QDRANT_API_KEY name w =
     (if unset QDRANT_URL then (Inl (MissingEnv ''QDRANT_URL''), w)
      else if unset QDRANT_API_KEY then (Inl (MissingEnv ''QDRANT_API_KEY''), w)
      else (case recreate_collection name 1536 COSINE w of
              (Inl e, w1) \<Rightarrow> (Inl e, w1)
            | (Inr u, w1) \<Rightarrow> (Inr (), print Recreated w1)))"

section \<open>\<open>ingest_files\<close> of \<open>ingest_qdrant_cloud.py\<close>\<close>

text \<open>\<open>os.path.basename\<close>: what follows the last slash.\<close>

definition basename :: "string \<Rightarrow> string" where
  "basename path = rev (takeWhile (\<lambda>c. c \<noteq> CHR ''/'') (rev path))"

text \<open>The local variables \<open>vectors\<close>, \<open>payloads\<close>, \<open>ids\<close> and \<open>pid\<close> of \<open>ingest_files\<close>.\<close>

record 'v locals =
  vectors :: "'v list"
  payloads :: "payload list"
  ids :: "nat list"
  pid :: nat

text \<open>
  The loop \<open>for ch in chunks\<close>. The embedding service is the parameter \<open>embed_text\<close>; when
  it raises, the \<open>except\<close> branch prints the error and goes on with the next chunk.
\<close>

fun embed_chunks ::
  "(string \<Rightarrow> exn + 'v) \<Rightarrow> string \<Rightarrow> string list \<Rightarrow> 'v locals \<times> 'w world \<Rightarrow> 'v locals \<times> 'w world" where
  "embed_chunks embed_text path [] st = st"
| "embed_chunks embed_text path (ch # chunks) (l, w) =
     (case embed_text ch of
        Inl e \<Rightarrow> embed_chunks embed_text path chunks (l, print (EmbeddingError e) w)
      | Inr emb \<Rightarrow>
          embed_chunks embed_text path chunks
            (l\<lparr>vectors := vectors l @ [emb],
               payloads := payloads l @ [[(''title'', PyStr (basename path)), (''content'', PyStr ch)]],
               ids := ids l @ [pid l],
               pid := pid l + 1\<rparr>, w))"

text \<open>
  The loop \<open>for idx, path in enumerate(files, start=1)\<close>. A file is given by its path and
  its content. The result is \<open>None\<close> when \<open>split_text\<close> does not return.
\<close>

fun files_loop ::
  "(string \<Rightarrow> exn + 'v) \<Rightarrow> (string \<times> string) list \<Rightarrow> nat \<Rightarrow> 'v locals \<times> 'w world \<Rightarrow>
   ('v locals \<times> 'w world) option" where
  "files_loop embed_text [] idx st = Some st"
| "files_loop embed_text ((path, text) # files) idx (l, w) =
     (case split_text text of
        None \<Rightarrow> None
      | Some chunks \<Rightarrow>
          (let w1 = print (FileHeader idx (basename path)) w
           in if chunks = []
              then files_loop embed_text files (idx + 1) (l, print EmptySkip w1)
              else files_loop embed_text files (idx + 1) (embed_chunks embed_text path chunks (l, w1))))"

text \<open>\<open>qmodels.Batch(ids=ids, vectors=vectors, payloads=payloads)\<close> as a list of points.\<close>

definition batch_points :: "'v locals \<Rightarrow> 'v point list" where
  "batch_points l = zip (map IntId (ids l)) (zip (vectors l) (payloads l))"

text \<open>
  \<open>files\<close> is the sorted list of the paths that \<open>glob\<close> finds, each with the content read
  from it.
\<close>

definition ingest_files ::
  "(string \<Rightarrow> exn + 'v) \<Rightarrow> (string \<times> string) list \<Rightarrow> 'v world \<Rightarrow> ((exn + unit) \<times> 'v world) option" where
  "ingest_files embed_text files w =
     (case ensure_collection (print InputDir (print IngestStart w)) of
        (Inl e, w1) \<Rightarrow> Some (Inl e, w1)
      | (Inr u, w1) \<Rightarrow>
          (let w2 = print (FilesFound (length files)) w1
           in if files = [] then Some (Inr (), print NoFiles w2)
              else (case files_loop embed_text files 1
                           (\<lparr>vectors = [], payloads = [], ids = [], pid = 1\<rparr>, w2) of
                      None \<Rightarrow> None
                    | Some (l, w3) \<Rightarrow>
                        (case upsert COLLECTION_NAME (batch_points l) w3 of
                           (Inl e, w4) \<Rightarrow> Some (Inl e, w4)
                         | (Inr u', w4) \<Rightarrow> Some (Inr (), print (Loaded (length (vectors l))) w4)))))"

text \<open>
  What \<open>ingest_files\<close> is expected to load: the chunks that \<open>embed_text\<close> embeds, in
  order, each with the base name of its file and its vector.
\<close>

definition embedded_chunks ::
  "(string \<Rightarrow> exn + 'v) \<Rightarrow> string \<Rightarrow> string list \<Rightarrow> (string \<times> string \<times> 'v) list" where
  "embedded_chunks embed_text path chunks =
     concat (map (\<lambda>ch. case embed_text ch of Inl e \<Rightarrow> [] | Inr emb \<Rightarrow> [(basename path, ch, emb)])
                 chunks)"

definition embedded :: "(string \<Rightarrow> exn + 'v) \<Rightarrow> (string \<times> string) list \<Rightarrow> (string \<times> string \<times> 'v) list" where
  "embedded embed_text files =
     concat (map (\<lambda>(path, text). case split_text text of
                                     None \<Rightarrow> []
                                   | Some chunks \<Rightarrow> embedded_chunks embed_text path chunks)
                 files)"

section \<open>\<open>ingest_documents\<close> of \<open>ingest_qdrant.py\<close>\<close>

text \<open>
  The loop \<open>for idx, doc in enumerate(DOCUMENTS, start=1)\<close>, with \<open>n\<close> the number of
  documents. \<open>get_embedding\<close> is called outside any \<open>try\<close>: when it raises, the exception
  leaves the loop. \<open>uuid4 idx\<close> is the identifier drawn for document \<open>idx\<close>.
\<close>

fun documents_loop ::
  "(string \<Rightarrow> exn + 'v) \<Rightarrow> (nat \<Rightarrow> string) \<Rightarrow> nat \<Rightarrow> string list \<Rightarrow> nat \<Rightarrow>
   'v point list \<times> 'w world \<Rightarrow> (exn + 'v point list) \<times> 'w world" where
  "documents_loop get_embedding uuid4 n [] idx (ps, w) = (Inr ps, w)"
| "documents_loop get_embedding uuid4 n (doc # docs) idx (ps, w) =
     (let w1 = print (Processing idx n) w
      in case get_embedding doc of
           Inl e \<Rightarrow> (Inl e, w1)
         | Inr vector \<Rightarrow>
             documents_loop get_embedding uuid4 n docs (idx + 1)
               (ps @ [(UuidId (uuid4 idx), vector,
                       [(''text'', PyStr doc), (''source'', PyStr ''moedelo_reforma_2026_demo''),
                        (''index'', PyInt (int idx))])], w1))"

text \<open>
  \<open>DOCUMENTS\<close> is the module's list of ten texts and \<open>name\<close> its \<open>COLLECTION_NAME\<close>; both
  are parameters here.
\<close>

definition ingest_documents ::
  "(string \<Rightarrow> exn + 'v) \<Rightarrow> (nat \<Rightarrow> string) \<Rightarrow> string \<Rightarrow> string list \<Rightarrow> 'v world \<Rightarrow>
   (exn + unit) \<times> 'v world" where
  "ingest_documents get_embedding uuid4 name DOCUMENTS w =
     (case ingest_qdrant_ensure_collection name (print InitCollection w) of
        (Inl e, w1) \<Rightarrow> (Inl e, w1)
      | (Inr u, w1) \<Rightarrow>
          (case documents_loop get_embedding uuid4 (length DOCUMENTS) DOCUMENTS 1
                  ([], print (Prepared (length DOCUMENTS)) w1) of
             (Inl e, w2) \<Rightarrow> (Inl e, w2)
           | (Inr ps, w2) \<Rightarrow>
               (case upsert name ps w2 of
                  (Inl e, w3) \<Rightarrow> (Inl e, w3)
                | (Inr u', w3) \<Rightarrow> (Inr (), print Done (print (LoadedInto (length ps)) w3)))))"

section \<open>\<open>search_qdrant\<close> of \<open>demo_app.py\<close>\<close>

text \<open>
  The two Russian literals of \<open>search_qdrant\<close>, by their UTF-8 bytes: the message returned
  when nothing is found (``nothing found in the collection.'') and the first line of the
  trace (``fragments found:'').
\<close>

definition NOTHING_FOUND :: string where
  "NOTHING_FOUND = map char_of
     [0xD0, 0x9D, 0xD0, 0xB8, 0xD1, 0x87, 0xD0, 0xB5, 0xD0, 0xB3, 0xD0, 0xBE, 0x20, 0xD0, 0xBD,
      0xD0, 0xB5, 0x20, 0xD0, 0xBD, 0xD0, 0xB0, 0xD0, 0xB9, 0xD0, 0xB4, 0xD0, 0xB5, 0xD0, 0xBD,
      0xD0, 0xBE, 0x20, 0xD0, 0xB2, 0x20, 0xD0, 0xBA, 0xD0, 0xBE, 0xD0, 0xBB, 0xD0, 0xBB, 0xD0,
      0xB5, 0xD0, 0xBA, 0xD1, 0x86, 0xD0, 0xB8, 0xD0, 0xB8, 0x2E :: nat]"

definition FOUND_HEADER :: string where
  "FOUND_HEADER = map char_of
     [0xD0, 0x9D, 0xD0, 0xB0, 0xD0, 0xB9, 0xD0, 0xB4, 0xD0, 0xB5, 0xD0, 0xBD, 0xD0, 0xBD, 0xD1,
      0x8B, 0xD0, 0xB5, 0x20, 0xD1, 0x84, 0xD1, 0x80, 0xD0, 0xB0, 0xD0, 0xB3, 0xD0, 0xBC, 0xD0,
      0xB5, 0xD0, 0xBD, 0xD1, 0x82, 0xD1, 0x8B, 0x3A, 0x0A :: nat]"

text \<open>\<open>str\<close> of a number, as an f-string prints it.\<close>

fun str_nat :: "nat \<Rightarrow> string" where
  "str_nat n =
     (if n < 10 then [''0123456789'' ! n] else str_nat (n div 10) @ [''0123456789'' ! (n mod 10)])"

declare str_nat.simps [simp del]

fun str_of :: "pyval \<Rightarrow> string" where
  "str_of (PyStr s) = s"
| "str_of (PyInt i) = (if i < 0 then CHR ''-'' # str_nat (nat (- i)) else str_nat (nat i))"

text \<open>A point of the search result: its payload, which may be \<open>None\<close>, and its score.\<close>

record 's scored_point =
  payload_of :: "payload option"
  score :: 's

text \<open>\<open>(p.payload or {}).get(key, "")\<close>, as an f-string prints it.\<close>

definition payload_get :: "payload option \<Rightarrow> string \<Rightarrow> string" where
  "payload_get p key =
     (case p of
        None \<Rightarrow> []
      | Some d \<Rightarrow> (case map_of d key of None \<Rightarrow> [] | Some v \<Rightarrow> str_of v))"

text \<open>
  The loop over \<open>enumerate(res.points, start=1)\<close>: for each point the piece of context and
  the line of the trace. \<open>fmt\<close> prints a score with three decimals.
\<close>

fun render :: "('s \<Rightarrow> string) \<Rightarrow> nat \<Rightarrow> 's scored_point list \<Rightarrow> (string \<times> string) list" where
  "render fmt idx [] = []"
| "render fmt idx (p # ps) =
     (let title = payload_get (payload_of p) ''title'';
          content = payload_get (payload_of p) ''content''
      in (''['' @ str_nat idx @ ''] '' @ title @ [CHR 0x0A] @ content,
          str_nat idx @ '') score='' @ fmt (score p) @ '', title='' @ title)
         # render fmt (idx + 1) ps)"

text \<open>
  The embedding service and the search of the vector store are the parameters
  \<open>embed_text\<close> and \<open>query_points\<close>; an exception of either leaves the function.
\<close>

definition search_qdrant ::
  "(string \<Rightarrow> exn + 'v) \<Rightarrow> (string \<Rightarrow> 'v \<Rightarrow> nat \<Rightarrow> exn + 's scored_point list) \<Rightarrow> ('s \<Rightarrow> string) \<Rightarrow>
   string \<Rightarrow> nat \<Rightarrow> exn + string \<times> string" where
  "search_qdrant embed_text query_points fmt query_text top_k =
     (case embed_text query_text of
        Inl e \<Rightarrow> Inl e
      | Inr query_vec \<Rightarrow>
          (case query_points COLLECTION_NAME query_vec top_k of
             Inl e \<Rightarrow> Inl e
           | Inr res_points \<Rightarrow>
               if res_points = [] then Inr ('''', NOTHING_FOUND)
               else (let rendered = render fmt 1 res_points
                     in Inr (join [CHR 0x0A, CHR 0x0A, CHR ''-'', CHR ''-'', CHR ''-'', CHR 0x0A, CHR 0x0A]
                               (map fst rendered),
                             FOUND_HEADER @ join [CHR 0x0A] (map snd rendered)))))"

section \<open>A world and collaborators for the examples\<close>

text \<open>A server without collections, reached without faults, before any call or output.\<close>

definition fresh_world :: "'v world" where
  "fresh_world = \<lparr>collections = Map.empty, faults = [], calls = [], stdout = []\<rparr>"

text \<open>
  An embedding service that fails on one text and gives every other text a vector (its
  length stands for the vector), and a source of identifiers.
\<close>

definition embed_except :: "string \<Rightarrow> string \<Rightarrow> exn + nat" where
  "embed_except bad text = (if text = bad then Inl (Failure ''embedding failed'') else Inr (length text))"

definition uuid_stub :: "nat \<Rightarrow> string" where
  "uuid_stub i = ''uuid-'' @ str_nat i"

text \<open>
  A server whose collection \<open>COLLECTION_NAME\<close> has vectors of dimension \<open>dim\<close> and holds
  one point.
\<close>

definition stored_world :: "nat \<Rightarrow> nat world" where
  "stored_world dim =
     fresh_world\<lparr>collections :=
       [COLLECTION_NAME \<mapsto>
          \<lparr>vectors_of = VectorParams dim COSINE,
           points = [IntId 1 \<mapsto> (0, [(''title'', PyStr ''a.txt''), (''content'', PyStr ''hello'')])]\<rparr>]\<rparr>"

text \<open>A search that finds nothing, and a printer of scores.\<close>

definition empty_search :: "string \<Rightarrow> nat \<Rightarrow> nat \<Rightarrow> exn + nat scored_point list" where
  "empty_search name query_vec top_k = Inr []"

definition fmt_stub :: "nat \<Rightarrow> string" where
  "fmt_stub s = str_nat s @ ''.000''"

text \<open>Ten short documents, and ten files with the same contents.\<close>

definition ten_documents :: "string list" where
  "ten_documents = [''d1'', ''d2'', ''d3'', ''d4'', ''d5'', ''d6'', ''d7'', ''d8'', ''d9'', ''d10'']"

definition ten_files :: "(string \<times> string) list" where
  "ten_files =
     [(''tokens/f01.txt'', ''d1''), (''tokens/f02.txt'', ''d2''), (''tokens/f03.txt'', ''d3''),
      (''tokens/f04.txt'', ''d4''), (''tokens/f05.txt'', ''d5''), (''tokens/f06.txt'', ''d6''),
      (''tokens/f07.txt'', ''d7''), (''tokens/f08.txt'', ''d8''), (''tokens/f09.txt'', ''d9''),
      (''tokens/f10.txt'', ''d10'')]"

section \<open>Properties of the chunker\<close>

lemma rfind_from_range:
  "rfind_from c xs i best = best \<or> (i \<le> rfind_from c xs i best \<and> rfind_from c xs i best < i + int (length xs))"
proof (induction xs arbitrary: i best)
  case Nil
  then show ?case by simp
next
  case (Cons x xs)
  from Cons.IH [of "i + 1" "if x = c then i else best"] show ?case
    by (auto split: if_splits)
qed

lemma rfind_range: "rfind s c = - 1 \<or> (0 \<le> rfind s c \<and> rfind s c < int (length s))"
  using rfind_from_range [of c s 0 "- 1"] by (simp add: rfind_def)

lemma next_start_eq [simp]: "next_start overlap e = e"
  by (simp add: next_start_def)

lemma window_slice:
  assumes "window csize text s = (c, e)"
  shows "c = slice text s e \<and> s \<le> e \<and> e \<le> s + csize"
proof (cases "s + csize < length text \<and> rfind (slice text s (s + csize)) CHR '' '' \<noteq> - 1")
  case True
  define ls where "ls = rfind (slice text s (s + csize)) CHR '' ''"
  have "0 \<le> ls" "ls < int (length (slice text s (s + csize)))"
    using True rfind_range [of "slice text s (s + csize)" "CHR '' ''"] by (auto simp: ls_def)
  moreover have "length (slice text s (s + csize)) \<le> csize"
    by (simp add: slice_def)
  ultimately have le: "nat ls \<le> csize" by linarith
  from assms True have "c = take (nat ls) (slice text s (s + csize))" "e = s + nat ls"
    by (auto simp: window_def Let_def ls_def)
  with le show ?thesis by (simp add: slice_def min_def)
next
  case False
  with assms have "c = slice text s (s + csize)" "e = s + csize"
    by (auto simp: window_def Let_def split: if_splits)
  then show ?thesis by simp
qed

lemma split_trace_unfold:
  "start < length text \<Longrightarrow> window csize text start = (c, e) \<Longrightarrow>
   split_trace csize overlap text start acc = split_trace csize overlap text e (acc @ [(start, c)])"
  by (subst split_trace.simps) simp

lemma split_trace_exit:
  "\<not> start < length text \<Longrightarrow> split_trace csize overlap text start acc = Some acc"
  by (subst split_trace.simps) simp

lemma split_trace_suffix:
  assumes ret: "split_trace csize overlap text s acc = Some tr"
  shows "\<exists>suf. tr = acc @ suf \<and> (\<forall>acc'. split_trace csize overlap text s acc' = Some (acc' @ suf))"
  using ret
proof (induction csize overlap "text" s acc tr rule: split_trace.raw_induct)
  case (1 f csize overlap t start acc tr)
  show ?case
  proof (cases "start < length t")
    case True
    obtain c e where w: "window csize t start = (c, e)" by (cases "window csize t start")
    from "1.hyps" True w have "f csize overlap t e (acc @ [(start, c)]) = Some tr"
      by simp
    moreover from "1.prems" have "split_trace csize overlap t e (acc @ [(start, c)]) = Some tr"
      by (simp add: split_trace_unfold [OF True w])
    ultimately obtain suf where
      suf: "tr = (acc @ [(start, c)]) @ suf"
        "\<And>acc'. split_trace csize overlap t e acc' = Some (acc' @ suf)"
      using "1.IH" by blast
    have "split_trace csize overlap t start acc' = Some (acc' @ (start, c) # suf)" for acc'
      using suf(2) [of "acc' @ [(start, c)]"] by (simp add: split_trace_unfold [OF True w])
    with suf(1) show ?thesis by auto
  next
    case False
    with "1.prems" show ?thesis by (auto simp: split_trace_exit)
  qed
qed (rule ret)

lemma split_trace_progress:
  assumes "split_trace csize overlap text s acc = Some tr" "s < length text"
    "window csize text s = (c, e)"
  shows "s < e"
proof -
  from split_trace_suffix [OF assms(1)] obtain suf where
    suf: "\<And>acc'. split_trace csize overlap text s acc' = Some (acc' @ suf)" by blast
  from suf [of "[]"] have *: "split_trace csize overlap text e [(s, c)] = Some suf"
    by (simp add: split_trace_unfold [OF assms(2,3)])
  have "e \<noteq> s"
  proof
    assume "e = s"
    with * suf [of "[(s, c)]"] show False by simp
  qed
  with window_slice [OF assms(3)] show ?thesis by simp
qed

lemma split_loop_trace:
  assumes ret: "split_loop csize overlap text s cs = Some r" and acc: "map snd acc = cs"
  shows "\<exists>tr. split_trace csize overlap text s acc = Some tr \<and> map snd tr = r"
  using ret acc
proof (induction csize overlap "text" s cs r arbitrary: acc rule: split_loop.raw_induct)
  case (1 f csize overlap t start cs r)
  show ?case
  proof (cases "start < length t")
    case True
    obtain c e where w: "window csize t start = (c, e)" by (cases "window csize t start")
    from "1.hyps" True w have "f csize overlap t e (cs @ [c]) = Some r"
      by simp
    moreover from "1.prems"(1) have "split_loop csize overlap t e (cs @ [c]) = Some r"
      using True w by (subst (asm) split_loop.simps) simp
    moreover have "map snd (acc @ [(start, c)]) = cs @ [c]"
      using "1.prems"(2) by simp
    ultimately have "\<exists>tr. split_trace csize overlap t e (acc @ [(start, c)]) = Some tr \<and> map snd tr = r"
      by (rule "1.IH")
    then show ?thesis by (simp add: split_trace_unfold [OF True w])
  next
    case False
    with "1.prems" "1.hyps" show ?thesis by (auto simp: split_trace_exit)
  qed
qed (rule ret)

lemma tiles_snoc: "tiles a (xs @ [(s, c)]) b \<longleftrightarrow> tiles a xs s \<and> b = s + length c"
  by (induction a xs s rule: tiles.induct) auto

lemma tiles_last: "tiles a tr b \<Longrightarrow> tr \<noteq> [] \<Longrightarrow> fst (last tr) + length (snd (last tr)) = b"
  by (induction a tr b rule: tiles.induct) (auto split: if_splits)

lemma tiles_starts:
  "tiles a tr b \<Longrightarrow> \<forall>p\<in>set tr. snd p \<noteq> [] \<Longrightarrow>
   sorted_wrt (<) (map fst tr) \<and> (\<forall>p\<in>set tr. a \<le> fst p \<and> fst p < b) \<and> a \<le> b"
proof (induction a tr b rule: tiles.induct)
  case (1 a b)
  then show ?case by simp
next
  case (2 a s c tr b)
  then have IH: "sorted_wrt (<) (map fst tr)" "\<forall>p\<in>set tr. a + length c \<le> fst p \<and> fst p < b"
    "a + length c \<le> b" by auto
  from "2.prems" have pos: "0 < length c" and s: "s = a" by auto
  have *: "a < fst p \<and> fst p < b" if "p \<in> set tr" for p
  proof -
    from IH(2) that have "a + length c \<le> fst p \<and> fst p < b" by blast
    with pos show ?thesis by linarith
  qed
  have "a < b" using IH(3) pos by linarith
  moreover have "\<forall>p\<in>set tr. a \<le> fst p \<and> fst p < b" using * by (simp add: less_imp_le)
  moreover have "\<forall>x\<in>set (map fst tr). a < x" using * by auto
  ultimately show ?case using IH(1) s by simp
qed

lemma tiles_le: "tiles a tr b \<Longrightarrow> a \<le> b"
  by (induction a tr b rule: tiles.induct) auto

lemma tiles_concat:
  "tiles a tr b \<Longrightarrow> \<forall>p\<in>set tr. snd p = slice text (fst p) (fst p + length (snd p)) \<Longrightarrow>
   concat (map snd tr) = slice text a b"
proof (induction a tr b rule: tiles.induct)
  case (1 a b)
  then show ?case by (simp add: slice_def)
next
  case (2 a s c tr b)
  then have IH: "concat (map snd tr) = slice text (a + length c) b" by auto
  from "2.prems" have c: "c = take (length c) (drop a text)" by (auto simp: slice_def)
  from "2.prems" have "a + length c \<le> b" by (auto dest: tiles_le)
  then have "b - a = length c + (b - (a + length c))" by simp
  then have "take (b - a) (drop a text)
          = take (length c) (drop a text) @ take (b - (a + length c)) (drop (length c) (drop a text))"
    by (simp only: take_add)
  with c IH show ?case by (simp add: slice_def add.commute)
qed

lemma slice_length:
  assumes "c = slice text s e" "s \<le> e" "s \<le> length text"
  shows "c = slice text s (s + length c)" "s + length c = min e (length text)"
  using assms by (auto simp: slice_def min_def)

lemma split_trace_inv:
  assumes "split_trace csize overlap text s acc = Some tr"
    and "\<forall>p\<in>set acc. chunk_at csize text p"
    and "tiles 0 acc (min s (length text))"
  shows "(\<forall>p\<in>set tr. chunk_at csize text p) \<and> tiles 0 tr (length text)"
  using assms
proof (induction "length text - s" arbitrary: s acc rule: less_induct)
  case less
  show ?case
  proof (cases "s < length text")
    case True
    obtain c e where w: "window csize text s = (c, e)" by (cases "window csize text s")
    have adv: "s < e" using split_trace_progress [OF less.prems(1) True w] .
    from window_slice [OF w] have c: "c = slice text s e" and e: "e \<le> s + csize" by simp_all
    from slice_length [OF c] adv True
    have c': "c = slice text s (s + length c)" and len: "s + length c = min e (length text)"
      by simp_all
    from len adv True have "c \<noteq> []" by auto
    moreover from len e have "length c \<le> csize" by simp
    ultimately have ok: "chunk_at csize text (s, c)" using c' by (simp add: chunk_at_def)
    have run: "split_trace csize overlap text e (acc @ [(s, c)]) = Some tr"
      using less.prems(1) by (simp add: split_trace_unfold [OF True w])
    have "tiles 0 (acc @ [(s, c)]) (min e (length text))"
      using less.prems(3) True len by (simp add: tiles_snoc)
    moreover have "\<forall>p\<in>set (acc @ [(s, c)]). chunk_at csize text p"
      using less.prems(2) ok by simp
    moreover have "length text - e < length text - s" using adv True by simp
    ultimately show ?thesis using less.hyps run by blast
  next
    case False
    with less.prems show ?thesis by (simp add: split_trace_exit)
  qed
qed

lemma split_loop_stuck:
  assumes stuck: "s < length text" "window csize text s = (c, s)"
  shows "split_loop csize overlap text s cs = None"
proof (cases "split_loop csize overlap text s cs")
  case (Some r)
  then have False using stuck
  proof (induction csize overlap "text" s cs r rule: split_loop.raw_induct)
    case (1 f csize overlap t start cs r)
    from "1.hyps" "1.prems" have "f csize overlap t start (cs @ [c]) = Some r" by simp
    moreover from "1.prems" have "split_loop csize overlap t start (cs @ [c]) = Some r"
      by (subst (asm) split_loop.simps) simp
    ultimately show ?case using "1.IH" "1.prems"(2,3) by blast
  qed (rule Some)
  then show ?thesis ..
qed simp

lemma rfind_from_append:
  "rfind_from c (xs @ ys) i best = rfind_from c ys (i + int (length xs)) (rfind_from c xs i best)"
  by (induction xs arbitrary: i best) (simp_all add: add.assoc)

lemma rfind_from_replicate: "x \<noteq> c \<Longrightarrow> rfind_from c (replicate n x) i best = best"
  by (induction n arbitrary: i) simp_all

lemma split_ws_no_space:
  "\<forall>c\<in>set xs. \<not> is_space c \<Longrightarrow> split_ws w xs = (if w @ xs = [] then [] else [w @ xs])"
  by (induction xs arbitrary: w) auto

lemma dropWhile_hd: "xs \<noteq> [] \<Longrightarrow> \<not> P (hd xs) \<Longrightarrow> dropWhile P xs = xs"
  by (cases xs) simp_all

lemma strip_id: "xs \<noteq> [] \<Longrightarrow> \<not> is_space (hd xs) \<Longrightarrow> \<not> is_space (last xs) \<Longrightarrow> strip xs = xs"
  by (simp add: strip_def dropWhile_hd hd_rev)

lemma normalize_text_no_space:
  assumes "\<forall>c\<in>set xs. \<not> is_space c"
  shows "normalize_text xs = xs"
proof (cases "xs = []")
  case True
  then show ?thesis by (simp add: normalize_text_def strip_def split_def)
next
  case False
  with assms have "strip xs = xs" by (intro strip_id) auto
  with assms False show ?thesis by (simp add: normalize_text_def split_def split_ws_no_space)
qed

lemma is_space_letters: "\<not> is_space (CHR ''b'')" "\<not> is_space (CHR ''a'')"  "\<not> is_space (CHR ''c'')" "is_space (CHR '' '')"
  by (simp_all add: is_space_def)

lemma normalize_text_long_word: "normalize_text long_word_text = long_word_text"
proof -
  have "strip long_word_text = long_word_text"
    by (rule strip_id) (simp_all add: is_space_letters long_word_text_def)
  then show ?thesis
    by (simp add: normalize_text_def split_def) (simp add: long_word_text_def is_space_letters split_ws_no_space)
qed

lemma length_long_word: "length long_word_text = 802"
  by (simp add: long_word_text_def)

lemma window_long_word_0: "window 800 long_word_text 0 = (''a'', 1)"
  by (simp add: long_word_text_def window_def slice_def rfind_def rfind_from_replicate Let_def)

lemma window_long_word_1: "window 800 long_word_text 1 = ('''', 1)"
  by (simp add: long_word_text_def window_def slice_def rfind_def rfind_from_replicate Let_def)


lemma length_block_text: "length block_text = 1601"
  by (simp add: block_text_def)

lemma normalize_text_block_text: "normalize_text block_text = block_text"
  by (rule normalize_text_no_space) (auto simp: block_text_def is_space_def)

lemma window_block_0: "window 800 block_text 0 = (replicate 800 (CHR ''a''), 800)"
  by (simp add: block_text_def window_def slice_def rfind_def rfind_from_replicate Let_def)

lemma window_block_800: "window 800 block_text 800 = (replicate 800 (CHR ''b''), 1600)"
  by (simp add: block_text_def window_def slice_def rfind_def rfind_from_replicate Let_def)

lemma window_block_1600: "window 800 block_text 1600 = (''c'', 2400)"
  by (simp add: block_text_def window_def slice_def rfind_def rfind_from_replicate Let_def)

lemma split_loop_block:
  "split_loop 800 100 block_text 0 [] =
     Some [replicate 800 (CHR ''a''), replicate 800 (CHR ''b''), ''c'']"
  apply (subst split_loop.simps, simp add: length_block_text window_block_0)
  apply (subst split_loop.simps, simp add: length_block_text window_block_800)
  apply (subst split_loop.simps, simp add: length_block_text window_block_1600)
  apply (subst split_loop.simps, simp add: length_block_text)
  done

lemma split_trace_block:
  "split_trace 800 100 block_text 0 [] =
     Some [(0, replicate 800 (CHR ''a'')), (800, replicate 800 (CHR ''b'')), (1600, ''c'')]"
  apply (subst split_trace.simps, simp add: length_block_text window_block_0)
  apply (subst split_trace.simps, simp add: length_block_text window_block_800)
  apply (subst split_trace.simps, simp add: length_block_text window_block_1600)
  apply (subst split_trace.simps, simp add: length_block_text)
  done


lemma split_text_with_trace:
  assumes "split_text_with csize overlap text = Some chunks"
  shows "\<exists>tr. split_trace csize overlap (normalize_text text) 0 [] = Some tr \<and> map snd tr = chunks \<and>
           (\<forall>p\<in>set tr. chunk_at csize (normalize_text text) p) \<and> tiles 0 tr (length (normalize_text text))"
proof (cases "normalize_text text = []")
  case True
  with assms have "chunks = []" by (simp add: split_text_with_def)
  with True show ?thesis by (simp add: split_trace_exit)
next
  case False
  with assms have "split_loop csize overlap (normalize_text text) 0 [] = Some chunks"
    by (simp add: split_text_with_def)
  then obtain tr where tr: "split_trace csize overlap (normalize_text text) 0 [] = Some tr"
    "map snd tr = chunks"
    using split_loop_trace [of csize overlap "normalize_text text" 0 "[]" chunks "[]"] by auto
  from split_trace_inv [OF tr(1)] have
    "(\<forall>p\<in>set tr. chunk_at csize (normalize_text text) p) \<and> tiles 0 tr (length (normalize_text text))"
    by simp
  with tr show ?thesis by blast
qed

text \<open>
  What holds of the chunks when \<open>split_text\<close> returns, for every text and every
  configuration: every returned chunk has at most \<open>csize\<close> characters; the chunks are the
  text at the offsets at which the loop cut them, these start offsets increase strictly,
  and for a text that is not empty after normalization there is a last chunk and it ends
  at the length of the normalized text.
\<close>

lemma split_text_with_offsets_returned:
  assumes "split_text_with csize overlap text = Some chunks"
  shows "(\<forall>c\<in>set chunks. length c \<le> csize) \<and>
         (\<exists>tr. split_trace csize overlap (normalize_text text) 0 [] = Some tr \<and> map snd tr = chunks \<and>
            (\<forall>(s, c)\<in>set tr. c = slice (normalize_text text) s (s + length c)) \<and>
            sorted_wrt (<) (map fst tr) \<and>
            (normalize_text text \<noteq> [] \<longrightarrow>
               tr \<noteq> [] \<and> fst (last tr) + length (snd (last tr)) = length (normalize_text text)))"
proof -
  from split_text_with_trace [OF assms] obtain tr where
    tr: "split_trace csize overlap (normalize_text text) 0 [] = Some tr" "map snd tr = chunks"
    and ok: "\<forall>p\<in>set tr. chunk_at csize (normalize_text text) p"
    and tl: "tiles 0 tr (length (normalize_text text))" by blast
  from ok have ne: "\<forall>p\<in>set tr. snd p \<noteq> []" by (auto simp: chunk_at_def)
  have "\<forall>c\<in>set chunks. length c \<le> csize"
    using ok tr(2) by (fastforce simp: chunk_at_def)
  moreover have "\<forall>(s, c)\<in>set tr. c = slice (normalize_text text) s (s + length c)"
    using ok by (auto simp: chunk_at_def)
  moreover have "sorted_wrt (<) (map fst tr)"
    using tiles_starts [OF tl ne] by simp
  moreover have "tr \<noteq> []" if "normalize_text text \<noteq> []"
    using tl that by auto
  moreover have "fst (last tr) + length (snd (last tr)) = length (normalize_text text)" if "tr \<noteq> []"
    using tiles_last [OF tl that] .
  ultimately show ?thesis using tr by blast
qed

lemma split_text_with_offsets_example:
  "split_text_with 5 2 ''ab cd  efg hi'' = Some [''ab'', '' cd'', '' efg'', '' hi''] \<and>
   length ''ab'' \<le> 5 \<and> length '' cd'' \<le> 5 \<and> length '' efg'' \<le> 5 \<and> length '' hi'' \<le> 5 \<and>
   split_trace 5 2 (normalize_text ''ab cd  efg hi'') 0 [] =
     Some [(0, ''ab''), (2, '' cd''), (5, '' efg''), (9, '' hi'')] \<and>
   sorted_wrt (<) [0, 2, 5, 9 :: nat] \<and>
   9 + length '' hi'' = length (normalize_text ''ab cd  efg hi'')"
proof -
  let ?T = "''ab cd  efg hi''"
  let ?tr = "[(0, ''ab''), (2, '' cd''), (5, '' efg''), (9, '' hi'')] :: (nat \<times> string) list"
  have run: "split_text_with 5 2 ?T = Some [''ab'', '' cd'', '' efg'', '' hi'']"
    by (simp add: split_text_with_def normalize_text_def strip_def split_def is_space_def
        split_loop.simps window_def slice_def rfind_def Let_def)
  have trace: "split_trace 5 2 (normalize_text ?T) 0 [] = Some ?tr"
    by (simp add: normalize_text_def strip_def split_def is_space_def
        split_trace.simps window_def slice_def rfind_def Let_def)
  from split_text_with_offsets_returned [OF run] obtain tr where
    len: "\<forall>c\<in>set [''ab'', '' cd'', '' efg'', '' hi'']. length c \<le> 5"
    and tr: "split_trace 5 2 (normalize_text ?T) 0 [] = Some tr"
    and sorted: "sorted_wrt (<) (map fst tr)"
    and last: "normalize_text ?T \<noteq> [] \<longrightarrow>
                 tr \<noteq> [] \<and> fst (last tr) + length (snd (last tr)) = length (normalize_text ?T)"
    by blast
  from tr trace have eq: "tr = ?tr" by simp
  have ne: "normalize_text ?T \<noteq> []"
    by (simp add: normalize_text_def strip_def split_def is_space_def)
  from sorted eq have "sorted_wrt (<) [0, 2, 5, 9 :: nat]" by simp
  moreover from last ne eq have "9 + length '' hi'' = length (normalize_text ?T)" by simp
  moreover from len have "length ''ab'' \<le> 5 \<and> length '' cd'' \<le> 5 \<and> length '' efg'' \<le> 5 \<and> length '' hi'' \<le> 5"
    by simp
  ultimately show ?thesis using run trace by blast
qed

text \<open>
  Claim C4: every string in the list that \<open>split_text\<close> returns is non-empty, and a text
  that normalizes to the empty string gives the empty list.
\<close>

theorem split_text_nonempty:
  "(split_text text = Some chunks \<longrightarrow> (\<forall>c\<in>set chunks. c \<noteq> [])) \<and>
   (normalize_text text = [] \<longrightarrow> split_text text = Some [])"
proof (intro conjI impI)
  assume "split_text text = Some chunks"
  then have "split_text_with CHUNK_SIZE CHUNK_OVERLAP text = Some chunks"
    by (simp add: split_text_def)
  from split_text_with_trace [OF this] show "\<forall>c\<in>set chunks. c \<noteq> []"
    by (fastforce simp: chunk_at_def)
next
  assume "normalize_text text = []"
  then show "split_text text = Some []"
    by (simp add: split_text_def split_text_with_def)
qed

lemma split_text_hello: "split_text ''hello   world '' = Some [''hello world'']"
  by (simp add: split_text_def split_text_with_def normalize_text_def strip_def split_def is_space_def
      split_loop.simps window_def slice_def rfind_def Let_def CHUNK_SIZE_def)

lemma split_text_blank: "normalize_text '' '' = []"
  by (simp add: normalize_text_def strip_def split_def is_space_def)

theorem split_text_nonempty_witness:
  "split_text ''hello   world '' = Some [''hello world''] \<and> ''hello world'' \<noteq> [] \<and>
   normalize_text '' '' = [] \<and> split_text '' '' = Some []"
  using split_text_nonempty [of "''hello   world ''" "[''hello world'']"]
    split_text_nonempty [of "'' ''" "[]"] split_text_hello split_text_blank
  by simp

lemma split_text_block:
  "split_text block_text = Some [replicate 800 (CHR ''a''), replicate 800 (CHR ''b''), ''c'']"
proof -
  have "block_text \<noteq> []" using length_block_text by auto
  then show ?thesis
    by (simp add: split_text_def split_text_with_def normalize_text_block_text CHUNK_SIZE_def
        CHUNK_OVERLAP_def split_loop_block)
qed

text \<open>
  Claim C10: whenever \<open>split_text\<close> returns, the concatenation of the chunks in order is
  the normalized text: the chunks lie end to end from offset 0 to the length of the text,
  each starting at the end offset of the one before it, so that consecutive chunks share
  no character and none is lost.
\<close>

theorem split_text_concat:
  assumes "split_text text = Some chunks"
  shows "concat chunks = normalize_text text \<and>
         (\<exists>tr. split_trace CHUNK_SIZE CHUNK_OVERLAP (normalize_text text) 0 [] = Some tr \<and>
            map snd tr = chunks \<and> tiles 0 tr (length (normalize_text text)))"
proof -
  from assms have "split_text_with CHUNK_SIZE CHUNK_OVERLAP text = Some chunks"
    by (simp add: split_text_def)
  from split_text_with_trace [OF this] obtain tr where
    tr: "split_trace CHUNK_SIZE CHUNK_OVERLAP (normalize_text text) 0 [] = Some tr" "map snd tr = chunks"
    and ok: "\<forall>p\<in>set tr. chunk_at CHUNK_SIZE (normalize_text text) p"
    and tl: "tiles 0 tr (length (normalize_text text))" by blast
  from ok have "\<forall>p\<in>set tr. snd p = slice (normalize_text text) (fst p) (fst p + length (snd p))"
    by (auto simp: chunk_at_def)
  from tiles_concat [OF tl this] tr(2) have "concat chunks = normalize_text text"
    by (simp add: slice_def)
  with tr tl show ?thesis by blast
qed

theorem split_text_concat_witness:
  "split_text (replicate 800 (CHR ''a'') @ replicate 800 (CHR ''b'') @ ''c'') =
     Some [replicate 800 (CHR ''a''), replicate 800 (CHR ''b''), ''c''] \<and>
   concat [replicate 800 (CHR ''a''), replicate 800 (CHR ''b''), ''c''] =
     normalize_text (replicate 800 (CHR ''a'') @ replicate 800 (CHR ''b'') @ ''c'')"
  using split_text_concat [OF split_text_block] split_text_block
  by (simp add: block_text_def)

text \<open>
  Claim C1 says that consecutive chunks overlap by exactly \<open>CHUNK_OVERLAP\<close> = 100
  characters. The text of 800 letters \<open>a\<close>, 800 letters \<open>b\<close> and one \<open>c\<close> is cut into three
  chunks at the offsets 0, 800 and 1600: the second chunk starts where the first ends, not
  100 characters before, and its first 100 characters are not the last 100 of the first.
\<close>

theorem split_text_no_overlap:
  "split_text (replicate 800 (CHR ''a'') @ replicate 800 (CHR ''b'') @ ''c'') =
     Some [replicate 800 (CHR ''a''), replicate 800 (CHR ''b''), ''c''] \<and>
   split_trace CHUNK_SIZE CHUNK_OVERLAP
       (normalize_text (replicate 800 (CHR ''a'') @ replicate 800 (CHR ''b'') @ ''c'')) 0 [] =
     Some [(0, replicate 800 (CHR ''a'')), (800, replicate 800 (CHR ''b'')), (1600, ''c'')] \<and>
   drop (800 - CHUNK_OVERLAP) (replicate 800 (CHR ''a'')) \<noteq> take CHUNK_OVERLAP (replicate 800 (CHR ''b''))"
  using split_text_block split_trace_block
  by (simp add: block_text_def [symmetric] normalize_text_block_text CHUNK_SIZE_def CHUNK_OVERLAP_def)

text \<open>
  Claim C2 says that for every text and every configuration with \<open>overlap < size\<close> the
  start offsets increase strictly and the last chunk ends at the length of the normalized
  text. At size 5 and overlap 2 the text \<open>ab hello cd\<close> is cut first at offset 0, into
  \<open>ab\<close>, and then at offset 2, where the window \<open>hell\<close> with its leading space has its only
  space in front: the chunk is empty and the next start offset is 2 again, so the offsets
  are 0, 2, 2 and so on, and no list of chunks is ever returned. The same happens at the
  configured size 800 and overlap 100 on the text with the word of 800 letters. For the
  runs that do return, the properties hold (lemma \<open>split_text_with_offsets_returned\<close>).
\<close>

theorem split_text_with_offsets_fail:
  "(2 :: nat) < 5 \<and>
   window 5 (normalize_text ''ab hello cd'') 0 = (''ab'', 2) \<and> next_start 2 2 = 2 \<and>
   window 5 (normalize_text ''ab hello cd'') 2 = ('''', 2) \<and>
   split_text_with 5 2 ''ab hello cd'' = None \<and>
   CHUNK_OVERLAP < CHUNK_SIZE \<and>
   split_text_with CHUNK_SIZE CHUNK_OVERLAP (''a '' @ replicate 800 (CHR ''b'')) = None"
proof -
  let ?T = "''ab hello cd''"
  have n: "normalize_text ?T = ?T"
    by (simp add: normalize_text_def strip_def split_def is_space_def)
  have w0: "window 5 ?T 0 = (''ab'', 2)"
    by (simp add: window_def slice_def rfind_def Let_def)
  have w2: "window 5 ?T 2 = ('''', 2)"
    by (simp add: window_def slice_def rfind_def Let_def)
  have "split_loop 5 2 ?T 2 [''ab''] = None"
    by (rule split_loop_stuck [OF _ w2]) simp
  then have "split_loop 5 2 ?T 0 [] = None"
    by (subst split_loop.simps) (simp add: w0)
  then have small: "split_text_with 5 2 ?T = None"
    by (simp add: split_text_with_def n)
  have "split_loop 800 100 long_word_text 1 [''a''] = None"
    by (rule split_loop_stuck [OF _ window_long_word_1]) (simp add: length_long_word)
  then have "split_loop 800 100 long_word_text 0 [] = None"
    by (subst split_loop.simps) (simp add: window_long_word_0 length_long_word)
  moreover have "long_word_text \<noteq> []" using length_long_word by auto
  ultimately have "split_text_with 800 100 long_word_text = None"
    by (simp add: split_text_with_def normalize_text_long_word)
  then have big: "split_text_with CHUNK_SIZE CHUNK_OVERLAP (''a '' @ replicate 800 (CHR ''b'')) = None"
    by (simp add: CHUNK_SIZE_def CHUNK_OVERLAP_def long_word_text_def)
  from n w0 w2 small big show ?thesis
    by (simp add: CHUNK_SIZE_def CHUNK_OVERLAP_def)
qed

text \<open>
  Claim C3 says that \<open>split_text\<close> terminates on every text, the cursor advancing by at
  least one character in each pass. On the text made of the word \<open>a\<close>, a space and a word
  of 800 letters the first pass cuts the chunk \<open>a\<close> and leaves the cursor at offset 1, on
  the space. There the window of 800 characters ends inside the long word and its only
  space is its first character: \<open>last_space\<close> is 0, the chunk is empty, \<open>end\<close> is \<open>start\<close>,
  and \<open>max(end - CHUNK_OVERLAP, end)\<close> leaves the cursor where it was. The loop never
  returns.
\<close>

theorem split_text_diverges:
  "window CHUNK_SIZE (normalize_text (''a '' @ replicate 800 (CHR ''b''))) 1 = ('''', 1) \<and>
   next_start CHUNK_OVERLAP 1 = 1 \<and>
   split_text (''a '' @ replicate 800 (CHR ''b'')) = None"
proof -
  have "split_loop 800 100 long_word_text 1 [''a''] = None"
    by (rule split_loop_stuck [OF _ window_long_word_1]) (simp add: length_long_word)
  then have "split_loop 800 100 long_word_text 0 [] = None"
    by (subst split_loop.simps) (simp add: window_long_word_0 length_long_word)
  moreover have "long_word_text \<noteq> []" using length_long_word by auto
  ultimately have "split_text long_word_text = None"
    by (simp add: split_text_def split_text_with_def normalize_text_long_word CHUNK_SIZE_def
        CHUNK_OVERLAP_def)
  moreover have "window CHUNK_SIZE (normalize_text long_word_text) 1 = ('''', 1)"
    using window_long_word_1 by (simp add: normalize_text_long_word CHUNK_SIZE_def)
  ultimately show ?thesis by (simp add: long_word_text_def)
qed

section \<open>Properties of \<open>ensure_collection\<close>\<close>

lemmas split_eval = split_text_def split_text_with_def normalize_text_def strip_def split_def is_space_def
      split_loop.simps window_def slice_def rfind_def Let_def CHUNK_SIZE_def CHUNK_OVERLAP_def

lemmas world_eval = fresh_world_def print_def request_def get_collection_def create_collection_def
  delete_collection_def recreate_collection_def upsert_def new_collection_def COLLECTION_NAME_def
  EMBEDDING_DIM_def

lemma get_collection_found:
  assumes "get_collection name w = (Inr c, w1)"
  shows "collections w1 = collections w \<and> calls w1 = calls w @ [GetCollection name] \<and>
         stdout w1 = stdout w \<and> collections w name = Some c"
  using assms
  by (auto simp: get_collection_def request_def split: list.splits option.splits)

lemma ensure_collection_found:
  assumes "get_collection COLLECTION_NAME w = (Inr c, w1)" "vector_size (vectors_of c) = Inr sz"
  shows "ensure_collection w =
           (Inr (), w1\<lparr>stdout := stdout w1 @
              (if sz = Some EMBEDDING_DIM then [CollectionExists sz]
               else [CollectionExists sz, DimensionMismatch sz EMBEDDING_DIM])\<rparr>)"
  using assms by (simp add: ensure_collection_def print_def Let_def)

lemma ensure_collection_keeps:
  assumes "collections w name = Some c"
  shows "collections (snd (ensure_collection w)) name = Some c"
  using assms
  by (auto simp: ensure_collection_def get_collection_def create_collection_def request_def
      print_def Let_def split: list.splits option.splits sum.splits exn.splits prod.splits)

lemma ensure_collection_calls:
  "calls (snd (ensure_collection w)) = calls w @ [GetCollection COLLECTION_NAME] \<or>
   calls (snd (ensure_collection w)) =
     calls w @ [GetCollection COLLECTION_NAME, CreateCollection COLLECTION_NAME EMBEDDING_DIM COSINE]"
  by (auto simp: ensure_collection_def get_collection_def create_collection_def request_def
      print_def Let_def split: list.splits option.splits sum.splits exn.splits prod.splits)

lemma ensure_collection_twice:
  assumes "collections w COLLECTION_NAME = None" "faults w = []"
  shows "case ensure_collection w of
           (r1, w1) \<Rightarrow>
             r1 = Inr () \<and>
             collections w1 COLLECTION_NAME = Some (new_collection EMBEDDING_DIM COSINE) \<and>
             (case ensure_collection w1 of
                (r2, w2) \<Rightarrow>
                  r2 = Inr () \<and> collections w2 = collections w1 \<and>
                  calls w2 = calls w1 @ [GetCollection COLLECTION_NAME])"
  using assms
  by (simp add: ensure_collection_def get_collection_def create_collection_def request_def
      print_def Let_def new_collection_def)

lemma main_recreates:
  assumes "\<not> unset url" "\<not> unset key" "faults w = []"
  shows "collections (snd (main url key name w)) name = Some (new_collection 1536 COSINE)"
  using assms
  by (simp add: main_def recreate_collection_def delete_collection_def create_collection_def
      request_def print_def)

lemma ensure_collection_propagates:
  assumes "get_collection COLLECTION_NAME w = (Inl e, w1)" "e \<noteq> UnexpectedResponse 404"
  shows "ensure_collection w = (Inl e, w1)"
  using assms by (cases e) (simp_all add: ensure_collection_def)

text \<open>
  Claim C7: \<open>ensure_collection\<close> is idempotent and does not destroy. When the fetch finds
  the collection, the call makes that one request and changes no collection; it prints the
  size and, when the size is not \<open>EMBEDDING_DIM\<close>, the mismatch warning, and returns
  normally. Whatever the world, it leaves every existing collection as it was and makes
  no request other than the fetch and the creation. Called twice in a row on a server
  without the collection, it creates it the first time and the second call only fetches.
  Recreation is the separate script \<open>create_collection_moedelo.py\<close>, whose \<open>main\<close>
  replaces the collection by a new, empty one.
\<close>

theorem ensure_collection_nondestructive:
  "(get_collection COLLECTION_NAME w = (Inr c, w1) \<and> vector_size (vectors_of c) = Inr sz \<longrightarrow>
      ensure_collection w =
        (Inr (), w1\<lparr>stdout := stdout w1 @
           (if sz = Some EMBEDDING_DIM then [CollectionExists sz]
            else [CollectionExists sz, DimensionMismatch sz EMBEDDING_DIM])\<rparr>) \<and>
      collections w1 = collections w \<and> calls w1 = calls w @ [GetCollection COLLECTION_NAME]) \<and>
   (collections w name = Some c' \<longrightarrow> collections (snd (ensure_collection w)) name = Some c') \<and>
   (calls (snd (ensure_collection w)) = calls w @ [GetCollection COLLECTION_NAME] \<or>
    calls (snd (ensure_collection w)) =
      calls w @ [GetCollection COLLECTION_NAME, CreateCollection COLLECTION_NAME EMBEDDING_DIM COSINE]) \<and>
   (collections w COLLECTION_NAME = None \<and> faults w = [] \<longrightarrow>
      (case ensure_collection w of
         (r1, w1) \<Rightarrow>
           r1 = Inr () \<and>
           collections w1 COLLECTION_NAME = Some (new_collection EMBEDDING_DIM COSINE) \<and>
           (case ensure_collection w1 of
              (r2, w2) \<Rightarrow>
                r2 = Inr () \<and> collections w2 = collections w1 \<and>
                calls w2 = calls w1 @ [GetCollection COLLECTION_NAME]))) \<and>
   (\<not> unset url \<and> \<not> unset key \<and> faults w = [] \<longrightarrow>
      collections (snd (main url key name w)) name = Some (new_collection 1536 COSINE))"
proof -
  have A: "get_collection COLLECTION_NAME w = (Inr c, w1) \<and> vector_size (vectors_of c) = Inr sz \<longrightarrow>
      ensure_collection w =
        (Inr (), w1\<lparr>stdout := stdout w1 @
           (if sz = Some EMBEDDING_DIM then [CollectionExists sz]
            else [CollectionExists sz, DimensionMismatch sz EMBEDDING_DIM])\<rparr>) \<and>
      collections w1 = collections w \<and> calls w1 = calls w @ [GetCollection COLLECTION_NAME]"
    using get_collection_found [of COLLECTION_NAME w c w1] ensure_collection_found [of w c w1 sz]
    by simp
  have B: "collections w name = Some c' \<longrightarrow> collections (snd (ensure_collection w)) name = Some c'"
    using ensure_collection_keeps [of w name c'] by simp
  note C = ensure_collection_calls [of w]
  have D: "collections w COLLECTION_NAME = None \<and> faults w = [] \<longrightarrow>
      (case ensure_collection w of
         (r1, w1) \<Rightarrow>
           r1 = Inr () \<and>
           collections w1 COLLECTION_NAME = Some (new_collection EMBEDDING_DIM COSINE) \<and>
           (case ensure_collection w1 of
              (r2, w2) \<Rightarrow>
                r2 = Inr () \<and> collections w2 = collections w1 \<and>
                calls w2 = calls w1 @ [GetCollection COLLECTION_NAME]))"
    using ensure_collection_twice [of w] by simp
  have E: "\<not> unset url \<and> \<not> unset key \<and> faults w = [] \<longrightarrow>
      collections (snd (main url key name w)) name = Some (new_collection 1536 COSINE)"
    using main_recreates [of url key w name] by simp
  show ?thesis by (rule conjI [OF A conjI [OF B conjI [OF C conjI [OF D E]]]])
qed

theorem ensure_collection_nondestructive_witness:
  "get_collection COLLECTION_NAME (stored_world 1536) =
     (Inr \<lparr>vectors_of = VectorParams 1536 COSINE,
           points = [IntId 1 \<mapsto> (0, [(''title'', PyStr ''a.txt''), (''content'', PyStr ''hello'')])]\<rparr>,
      (stored_world 1536)\<lparr>calls := [GetCollection COLLECTION_NAME]\<rparr>) \<and>
   ensure_collection (stored_world 1536) =
     (Inr (), (stored_world 1536)\<lparr>calls := [GetCollection COLLECTION_NAME],
                                   stdout := [CollectionExists (Some 1536)]\<rparr>) \<and>
   ensure_collection (stored_world 768) =
     (Inr (), (stored_world 768)\<lparr>calls := [GetCollection COLLECTION_NAME],
                                  stdout := [CollectionExists (Some 768),
                                             DimensionMismatch (Some 768) 1536]\<rparr>) \<and>
   collections (snd (ensure_collection (stored_world 768))) COLLECTION_NAME =
     collections (stored_world 768) COLLECTION_NAME \<and>
   fst (ensure_collection (fresh_world :: nat world)) = Inr () \<and>
   calls (snd (ensure_collection (fresh_world :: nat world))) =
     [GetCollection COLLECTION_NAME, CreateCollection COLLECTION_NAME EMBEDDING_DIM COSINE] \<and>
   calls (snd (ensure_collection (snd (ensure_collection (fresh_world :: nat world))))) =
     [GetCollection COLLECTION_NAME, CreateCollection COLLECTION_NAME EMBEDDING_DIM COSINE,
      GetCollection COLLECTION_NAME] \<and>
   collections (snd (ensure_collection (snd (ensure_collection (fresh_world :: nat world))))) =
     collections (snd (ensure_collection (fresh_world :: nat world))) \<and>
   collections (snd (main (Some ''https://qdrant.example'') (Some ''key'') COLLECTION_NAME (stored_world 1536)))
       COLLECTION_NAME = Some (new_collection 1536 COSINE)"
proof -
  let ?c = "\<lambda>dim. \<lparr>vectors_of = VectorParams dim COSINE,
           points = [IntId 1 \<mapsto> (0::nat, [(''title'', PyStr ''a.txt''), (''content'', PyStr ''hello'')])]\<rparr>"
  have g: "get_collection COLLECTION_NAME (stored_world dim) =
             (Inr (?c dim), (stored_world dim)\<lparr>calls := [GetCollection COLLECTION_NAME]\<rparr>)" for dim
    by (simp add: stored_world_def world_eval)
  have v: "vector_size (vectors_of (?c dim)) = Inr (Some dim)" for dim
    by simp
  have a: "collections (fresh_world :: nat world) COLLECTION_NAME = None \<and> faults (fresh_world :: nat world) = []"
    by (simp add: fresh_world_def)
  have s: "collections (stored_world 768) COLLECTION_NAME = Some (?c 768)"
    by (simp add: stored_world_def fresh_world_def)
  have m: "\<not> unset (Some ''https://qdrant.example'') \<and> \<not> unset (Some ''key'') \<and> faults (stored_world 1536) = []"
    by (simp add: unset_def stored_world_def fresh_world_def)
  note T = ensure_collection_nondestructive
  note A = T [THEN conjunct1, rule_format]
  note B = T [THEN conjunct2, THEN conjunct1, rule_format]
  note D = T [THEN conjunct2, THEN conjunct2, THEN conjunct2, THEN conjunct1, rule_format]
  note E = T [THEN conjunct2, THEN conjunct2, THEN conjunct2, THEN conjunct2, rule_format]
  from A [OF conjI [OF g [of 1536] v [of 1536]]]
  have 1: "ensure_collection (stored_world 1536) =
     (Inr (), (stored_world 1536)\<lparr>calls := [GetCollection COLLECTION_NAME],
                                   stdout := [CollectionExists (Some 1536)]\<rparr>)"
    by (simp add: EMBEDDING_DIM_def stored_world_def fresh_world_def)
  from A [OF conjI [OF g [of 768] v [of 768]]]
  have 2: "ensure_collection (stored_world 768) =
     (Inr (), (stored_world 768)\<lparr>calls := [GetCollection COLLECTION_NAME],
                                  stdout := [CollectionExists (Some 768),
                                             DimensionMismatch (Some 768) 1536]\<rparr>)"
    by (simp add: EMBEDDING_DIM_def stored_world_def fresh_world_def)
  from B [OF s] s
  have 3: "collections (snd (ensure_collection (stored_world 768))) COLLECTION_NAME =
     collections (stored_world 768) COLLECTION_NAME"
    by simp
  have c0: "calls (snd (ensure_collection (fresh_world :: nat world))) =
     [GetCollection COLLECTION_NAME, CreateCollection COLLECTION_NAME EMBEDDING_DIM COSINE]"
    by (simp add: ensure_collection_def world_eval)
  from D [OF a]
  have 4: "fst (ensure_collection (fresh_world :: nat world)) = Inr () \<and>
      calls (snd (ensure_collection (snd (ensure_collection (fresh_world :: nat world))))) =
        calls (snd (ensure_collection (fresh_world :: nat world))) @ [GetCollection COLLECTION_NAME] \<and>
      collections (snd (ensure_collection (snd (ensure_collection (fresh_world :: nat world))))) =
        collections (snd (ensure_collection (fresh_world :: nat world)))"
    by (simp add: case_prod_unfold)
  from E [OF m]
  have 5: "collections (snd (main (Some ''https://qdrant.example'') (Some ''key'') COLLECTION_NAME (stored_world 1536)))
       COLLECTION_NAME = Some (new_collection 1536 COSINE)" .
  from 1 2 3 4 5 c0 g [of 1536] show ?thesis by simp
qed

text \<open>
  Claim C6 says that only a collection that is not found leads to its creation and that
  any other failure of the fetch propagates. \<open>ensure_collection\<close> of
  \<open>ingest_qdrant_cloud.py\<close> does so (lemma \<open>ensure_collection_propagates\<close>), but the one of
  \<open>ingest_qdrant.py\<close> catches every exception: when the fetch of an existing collection
  fails with status 401, it prints that the collection was not found and asks for its
  creation, and the caller sees the answer 409 of that request instead of the 401; when
  the fetch times out, it creates the collection. On the first of these worlds the
  function of \<open>ingest_qdrant_cloud.py\<close> raises the 401 and makes no other request.
\<close>

theorem ensure_collection_swallows_failure:
  "ingest_qdrant_ensure_collection COLLECTION_NAME
       ((stored_world 1536)\<lparr>faults := [Some (UnexpectedResponse 401)]\<rparr>) =
     (Inl (UnexpectedResponse 409),
      (stored_world 1536)\<lparr>calls := [GetCollection COLLECTION_NAME,
                                     CreateCollection COLLECTION_NAME EMBEDDING_DIM COSINE],
                            stdout := [NotFoundCreating]\<rparr>) \<and>
   ingest_qdrant_ensure_collection COLLECTION_NAME
       ((fresh_world :: nat world)\<lparr>faults := [Some (Failure ''connection timed out'')]\<rparr>) =
     (Inr (),
      fresh_world\<lparr>collections := [COLLECTION_NAME \<mapsto> new_collection EMBEDDING_DIM COSINE],
                   calls := [GetCollection COLLECTION_NAME,
                             CreateCollection COLLECTION_NAME EMBEDDING_DIM COSINE],
                   stdout := [NotFoundCreating, Created]\<rparr>) \<and>
   ensure_collection ((stored_world 1536)\<lparr>faults := [Some (UnexpectedResponse 401)]\<rparr>) =
     (Inl (UnexpectedResponse 401), (stored_world 1536)\<lparr>calls := [GetCollection COLLECTION_NAME]\<rparr>)"
  by (simp add: ingest_qdrant_ensure_collection_def ensure_collection_def stored_world_def world_eval)

section \<open>Properties of the ingestion\<close>

lemma embed_chunks_result:
  "embed_chunks embed_text path chunks (l, w) = (l', w') \<Longrightarrow>
   vectors l' = vectors l @ map (\<lambda>(t, ch, emb). emb) (embedded_chunks embed_text path chunks) \<and>
   payloads l' = payloads l @
      map (\<lambda>(t, ch, emb). [(''title'', PyStr t), (''content'', PyStr ch)])
          (embedded_chunks embed_text path chunks) \<and>
   ids l' = ids l @ [pid l ..< pid l + length (embedded_chunks embed_text path chunks)] \<and>
   pid l' = pid l + length (embedded_chunks embed_text path chunks)"
proof (induction chunks arbitrary: l w)
  case Nil
  then show ?case by (simp add: embedded_chunks_def)
next
  case (Cons ch chunks)
  show ?case
  proof (cases "embed_text ch")
    case (Inl e)
    with Cons.prems have "embed_chunks embed_text path chunks (l, print (EmbeddingError e) w) = (l', w')"
      by simp
    from Cons.IH [OF this] Inl show ?thesis by (simp add: embedded_chunks_def)
  next
    case (Inr emb)
    let ?l = "l\<lparr>vectors := vectors l @ [emb],
               payloads := payloads l @ [[(''title'', PyStr (basename path)), (''content'', PyStr ch)]],
               ids := ids l @ [pid l],
               pid := pid l + 1\<rparr>"
    from Cons.prems Inr have "embed_chunks embed_text path chunks (?l, w) = (l', w')"
      by simp
    from Cons.IH [OF this] have IH:
      "vectors l' = (vectors l @ [emb]) @ map (\<lambda>(t, ch, emb). emb) (embedded_chunks embed_text path chunks)"
      "payloads l' = (payloads l @ [[(''title'', PyStr (basename path)), (''content'', PyStr ch)]]) @
         map (\<lambda>(t, ch, emb). [(''title'', PyStr t), (''content'', PyStr ch)])
             (embedded_chunks embed_text path chunks)"
      "ids l' = (ids l @ [pid l]) @
         [pid l + 1 ..< pid l + 1 + length (embedded_chunks embed_text path chunks)]"
      "pid l' = pid l + 1 + length (embedded_chunks embed_text path chunks)"
      by simp_all
    have E: "embedded_chunks embed_text path (ch # chunks) =
               (basename path, ch, emb) # embedded_chunks embed_text path chunks"
      using Inr by (simp add: embedded_chunks_def)
    show ?thesis unfolding E IH by (simp del: upt_Suc add: upt_conv_Cons)

  qed
qed

lemma documents_loop_result:
  "documents_loop get_embedding uuid4 n docs idx (ps, w) = (Inr ps', w') \<Longrightarrow>
   map (\<lambda>(i, v, p). (i, p)) ps' =
     map (\<lambda>(i, v, p). (i, p)) ps @
     map (\<lambda>(i, doc). (UuidId (uuid4 i),
            [(''text'', PyStr doc), (''source'', PyStr ''moedelo_reforma_2026_demo''),
             (''index'', PyInt (int i))]))
         (zip [idx ..< idx + length docs] docs)"
proof (induction docs arbitrary: idx ps w)
  case Nil
  then show ?case by simp
next
  case (Cons doc docs)
  from Cons.prems obtain vector where v: "get_embedding doc = Inr vector"
    by (auto simp: Let_def split: sum.splits)
  with Cons.prems have
    "documents_loop get_embedding uuid4 n docs (idx + 1)
       (ps @ [(UuidId (uuid4 idx), vector,
               [(''text'', PyStr doc), (''source'', PyStr ''moedelo_reforma_2026_demo''),
                (''index'', PyInt (int idx))])], print (Processing idx n) w) = (Inr ps', w')"
    by (simp add: Let_def)
  from Cons.IH [OF this] have IH:
    "map (\<lambda>(i, v, p). (i, p)) ps' =
       (map (\<lambda>(i, v, p). (i, p)) ps @
        [(UuidId (uuid4 idx),
          [(''text'', PyStr doc), (''source'', PyStr ''moedelo_reforma_2026_demo''),
           (''index'', PyInt (int idx))])]) @
       map (\<lambda>(i, doc). (UuidId (uuid4 i),
              [(''text'', PyStr doc), (''source'', PyStr ''moedelo_reforma_2026_demo''),
               (''index'', PyInt (int i))]))
           (zip [idx + 1 ..< idx + 1 + length docs] docs)"
    by simp
  show ?case unfolding IH by (simp del: upt_Suc add: upt_conv_Cons)

qed

lemma upt_split: "[p ..< p + (a + b)] = [p ..< p + a] @ [p + a ..< p + a + b]"
  using upt_add_eq_append [of p "p + a" b] by (simp add: add.assoc)

lemma embedded_Cons:
  "split_text t = Some chunks \<Longrightarrow>
   embedded embed_text ((path, t) # files) = embedded_chunks embed_text path chunks @ embedded embed_text files"
  by (simp add: embedded_def)

lemma files_loop_result:
  "files_loop embed_text files idx (l, w) = Some (l', w') \<Longrightarrow>
   vectors l' = vectors l @ map (\<lambda>(t, ch, emb). emb) (embedded embed_text files) \<and>
   payloads l' = payloads l @
      map (\<lambda>(t, ch, emb). [(''title'', PyStr t), (''content'', PyStr ch)]) (embedded embed_text files) \<and>
   ids l' = ids l @ [pid l ..< pid l + length (embedded embed_text files)] \<and>
   pid l' = pid l + length (embedded embed_text files)"
proof (induction files arbitrary: idx l w)
  case Nil
  then show ?case by (simp add: embedded_def)
next
  case (Cons f files)
  obtain path t where f_eq: "f = (path, t)" by (cases f)
  from Cons.prems f_eq obtain chunks where chunks: "split_text t = Some chunks"
    by (cases "split_text t") simp_all
  note E = embedded_Cons [OF chunks, of embed_text path files]
  let ?w1 = "print (FileHeader idx (basename path)) w"
  obtain l1 w1 where step: "embed_chunks embed_text path chunks (l, ?w1) = (l1, w1)"
    by (cases "embed_chunks embed_text path chunks (l, ?w1)")
  have rest: "\<exists>w1'. files_loop embed_text files (idx + 1) (l1, w1') = Some (l', w')"
  proof (cases "chunks = []")
    case True
    with step have "l1 = l" by simp
    with Cons.prems f_eq chunks True show ?thesis by (auto simp: Let_def)
  next
    case False
    with Cons.prems f_eq chunks step show ?thesis by (auto simp: Let_def)
  qed
  then obtain w1' where "files_loop embed_text files (idx + 1) (l1, w1') = Some (l', w')" ..
  from Cons.IH [OF this] have IH:
    "vectors l' = vectors l1 @ map (\<lambda>(t, ch, emb). emb) (embedded embed_text files)"
    "payloads l' = payloads l1 @
      map (\<lambda>(t, ch, emb). [(''title'', PyStr t), (''content'', PyStr ch)]) (embedded embed_text files)"
    "ids l' = ids l1 @ [pid l1 ..< pid l1 + length (embedded embed_text files)]"
    "pid l' = pid l1 + length (embedded embed_text files)"
    by simp_all
  from embed_chunks_result [OF step] have S:
    "vectors l1 = vectors l @ map (\<lambda>(t, ch, emb). emb) (embedded_chunks embed_text path chunks)"
    "payloads l1 = payloads l @
      map (\<lambda>(t, ch, emb). [(''title'', PyStr t), (''content'', PyStr ch)])
          (embedded_chunks embed_text path chunks)"
    "ids l1 = ids l @ [pid l ..< pid l + length (embedded_chunks embed_text path chunks)]"
    "pid l1 = pid l + length (embedded_chunks embed_text path chunks)"
    by simp_all
  show ?case unfolding f_eq E IH S by (simp only: map_append length_append upt_split append_assoc add.assoc simp_thms)
qed

lemma zip_batch:
  "zip (map a xs) (zip (map f ys) (map g ys)) = map (\<lambda>(x, y). (a x, f y, g y)) (zip xs ys)"
  by (induction xs arbitrary: ys) (auto simp: zip_Cons1 split: list.splits)

text \<open>
  Claim C5, amended. The claim says that the payload of every point is
  \<open>{title, content, source, index}\<close>. In \<open>ingest_files\<close> the points handed to \<open>upsert\<close> are,
  in order, one for every chunk that was embedded, with the payload \<open>{title, content}\<close>
  (the base name of the file and the chunk) and, as identifier, the 1-based position of
  the chunk among the embedded chunks of the whole run.
\<close>

theorem ingest_points_payload:
  assumes "files_loop embed_text files 1 (\<lparr>vectors = [], payloads = [], ids = [], pid = 1\<rparr>, w) =
             Some (l, w')"
  shows "batch_points l =
           map (\<lambda>(i, title, ch, emb). (IntId i, emb, [(''title'', PyStr title), (''content'', PyStr ch)]))
               (zip [1 ..< 1 + length (embedded embed_text files)] (embedded embed_text files))"
proof -
  from files_loop_result [OF assms] have
    "vectors l = map (\<lambda>(t, ch, emb). emb) (embedded embed_text files)"
    "payloads l = map (\<lambda>(t, ch, emb). [(''title'', PyStr t), (''content'', PyStr ch)]) (embedded embed_text files)"
    "ids l = [1 ..< 1 + length (embedded embed_text files)]"
    by simp_all
  then show ?thesis
    by (simp only: batch_points_def zip_batch) (simp add: case_prod_unfold)
qed

lemma files_loop_example:
  "files_loop (embed_except ''oops'')
     [(''tokens/a.txt'', ''hello''), (''tokens/b.txt'', ''oops''), (''tokens/c.txt'', '' ''), (''tokens/d.txt'', ''bye'')] 1
     (\<lparr>vectors = [], payloads = [], ids = [], pid = 1\<rparr>, fresh_world :: nat world) =
   Some (\<lparr>vectors = [5, 3],
           payloads = [[(''title'', PyStr ''a.txt''), (''content'', PyStr ''hello'')],
                       [(''title'', PyStr ''d.txt''), (''content'', PyStr ''bye'')]],
           ids = [1, 2], pid = 3\<rparr>,
         fresh_world\<lparr>stdout := [FileHeader 1 ''a.txt'', FileHeader 2 ''b.txt'',
            EmbeddingError (Failure ''embedding failed''), FileHeader 3 ''c.txt'', EmptySkip,
            FileHeader 4 ''d.txt'']\<rparr>)"
  by (simp add: split_eval embed_except_def basename_def world_eval)

lemma embedded_example:
  "embedded (embed_except ''oops'')
     [(''tokens/a.txt'', ''hello''), (''tokens/b.txt'', ''oops''), (''tokens/c.txt'', '' ''), (''tokens/d.txt'', ''bye'')] =
   [(''a.txt'', ''hello'', 5), (''d.txt'', ''bye'', 3)]"
  by (simp add: embedded_def embedded_chunks_def split_eval embed_except_def basename_def)

theorem ingest_points_payload_witness:
  "files_loop (embed_except ''oops'')
     [(''tokens/a.txt'', ''hello''), (''tokens/b.txt'', ''oops''), (''tokens/c.txt'', '' ''), (''tokens/d.txt'', ''bye'')] 1
     (\<lparr>vectors = [], payloads = [], ids = [], pid = 1\<rparr>, fresh_world :: nat world) =
   Some (\<lparr>vectors = [5, 3],
           payloads = [[(''title'', PyStr ''a.txt''), (''content'', PyStr ''hello'')],
                       [(''title'', PyStr ''d.txt''), (''content'', PyStr ''bye'')]],
           ids = [1, 2], pid = 3\<rparr>,
         fresh_world\<lparr>stdout := [FileHeader 1 ''a.txt'', FileHeader 2 ''b.txt'',
            EmbeddingError (Failure ''embedding failed''), FileHeader 3 ''c.txt'', EmptySkip,
            FileHeader 4 ''d.txt'']\<rparr>) \<and>
   batch_points \<lparr>vectors = [5, 3 :: nat],
           payloads = [[(''title'', PyStr ''a.txt''), (''content'', PyStr ''hello'')],
                       [(''title'', PyStr ''d.txt''), (''content'', PyStr ''bye'')]],
           ids = [1, 2], pid = 3\<rparr> =
     [(IntId 1, 5, [(''title'', PyStr ''a.txt''), (''content'', PyStr ''hello'')]),
      (IntId 2, 3, [(''title'', PyStr ''d.txt''), (''content'', PyStr ''bye'')])]"
proof -
  have u: "[1 ..< 1 + 2] = [1, 2 :: nat]" by (simp add: upt_rec)
  from ingest_points_payload [OF files_loop_example]
  have "batch_points \<lparr>vectors = [5, 3 :: nat],
           payloads = [[(''title'', PyStr ''a.txt''), (''content'', PyStr ''hello'')],
                       [(''title'', PyStr ''d.txt''), (''content'', PyStr ''bye'')]],
           ids = [1, 2], pid = 3\<rparr> =
     [(IntId 1, 5, [(''title'', PyStr ''a.txt''), (''content'', PyStr ''hello'')]),
      (IntId 2, 3, [(''title'', PyStr ''d.txt''), (''content'', PyStr ''bye'')])]"
    unfolding embedded_example by (simp add: u)
  with files_loop_example show ?thesis by (intro conjI)
qed

lemma keys_cloud:
  "set (map fst [(''title'', PyStr ''a.txt''), (''content'', PyStr ''hello'')]) \<noteq>
     {''title'', ''content'', ''source'', ''index''}"
proof
  assume eq: "set (map fst [(''title'', PyStr ''a.txt''), (''content'', PyStr ''hello'')]) =
     {''title'', ''content'', ''source'', ''index''}"
  have "''source'' \<in> {''title'', ''content'', ''source'', ''index''}" by simp
  with eq have "''source'' \<in> set (map fst [(''title'', PyStr ''a.txt''), (''content'', PyStr ''hello'')])"
    by (simp only:)
  then show False by simp
qed

lemma keys_local:
  "set (map fst [(''text'', PyStr ''first''), (''source'', PyStr ''moedelo_reforma_2026_demo''),
                 (''index'', PyInt 1)]) \<noteq>
     {''title'', ''content'', ''source'', ''index''}"
proof
  assume eq: "set (map fst [(''text'', PyStr ''first''), (''source'', PyStr ''moedelo_reforma_2026_demo''),
                 (''index'', PyInt 1)]) =
     {''title'', ''content'', ''source'', ''index''}"
  have "''title'' \<in> {''title'', ''content'', ''source'', ''index''}" by simp
  with eq have "''title'' \<in> set (map fst [(''text'', PyStr ''first''), (''source'', PyStr ''moedelo_reforma_2026_demo''),
                 (''index'', PyInt 1)])"
    by (simp only:)
  then show False by simp
qed

lemma files_loop_single:
  "files_loop (embed_except ''oops'') [(''tokens/a.txt'', ''hello'')] 1
     (\<lparr>vectors = [], payloads = [], ids = [], pid = 1\<rparr>, fresh_world :: nat world) =
   Some (\<lparr>vectors = [5], payloads = [[(''title'', PyStr ''a.txt''), (''content'', PyStr ''hello'')]],
           ids = [1], pid = 2\<rparr>,
         fresh_world\<lparr>stdout := [FileHeader 1 ''a.txt'']\<rparr>)"
  by (simp add: split_eval embed_except_def basename_def world_eval)

lemma documents_loop_single:
  "documents_loop (embed_except ''oops'') uuid_stub 1 [''first''] 1 ([], fresh_world :: nat world) =
     (Inr [(UuidId ''uuid-1'', 5, [(''text'', PyStr ''first''), (''source'', PyStr ''moedelo_reforma_2026_demo''), (''index'', PyInt 1)])],
      fresh_world\<lparr>stdout := [Processing 1 1]\<rparr>)"
  by (simp add: embed_except_def uuid_stub_def world_eval Let_def str_nat.simps)

text \<open>
  The counterexample to claim C5 as stated: the payload built by \<open>ingest_files\<close> for an
  embedded chunk has the keys \<open>title\<close> and \<open>content\<close> only, and the payload built by
  \<open>ingest_documents\<close> has the keys \<open>text\<close>, \<open>source\<close> and \<open>index\<close>; the latter lacks the two keys
  that \<open>search_qdrant\<close> reads.
\<close>

theorem ingest_payload_keys_counterexample:
  "files_loop (embed_except ''oops'') [(''tokens/a.txt'', ''hello'')] 1
     (\<lparr>vectors = [], payloads = [], ids = [], pid = 1\<rparr>, fresh_world :: nat world) =
   Some (\<lparr>vectors = [5], payloads = [[(''title'', PyStr ''a.txt''), (''content'', PyStr ''hello'')]],
           ids = [1], pid = 2\<rparr>,
         fresh_world\<lparr>stdout := [FileHeader 1 ''a.txt'']\<rparr>) \<and>
   set (map fst [(''title'', PyStr ''a.txt''), (''content'', PyStr ''hello'')]) \<noteq>
     {''title'', ''content'', ''source'', ''index''} \<and>
   documents_loop (embed_except ''oops'') uuid_stub 1 [''first''] 1 ([], fresh_world :: nat world) =
     (Inr [(UuidId ''uuid-1'', 5, [(''text'', PyStr ''first''), (''source'', PyStr ''moedelo_reforma_2026_demo''), (''index'', PyInt 1)])],
      fresh_world\<lparr>stdout := [Processing 1 1]\<rparr>) \<and>
   set (map fst [(''text'', PyStr ''first''), (''source'', PyStr ''moedelo_reforma_2026_demo''), (''index'', PyInt 1)]) \<noteq>
     {''title'', ''content'', ''source'', ''index''}"
  using files_loop_single keys_cloud documents_loop_single keys_local by (intro conjI)

text \<open>
  Claim C8 says that a failing embedding of one chunk is skipped and the run goes on. With
  ten documents and an embedding service that fails on the fifth, \<open>ingest_documents\<close> of
  \<open>ingest_qdrant.py\<close> stops at the fifth document with the exception: no \<open>upsert\<close> is
  requested and the collection stays empty. On ten files with the same contents
  \<open>ingest_files\<close> of \<open>ingest_qdrant_cloud.py\<close> does what the claim says: it returns
  normally, prints the error once and loads the nine other points.
\<close>

theorem ingest_documents_aborts:
  "ingest_documents (embed_except ''d5'') uuid_stub COLLECTION_NAME ten_documents
     (fresh_world :: nat world) =
     (Inl (Failure ''embedding failed''),
      \<lparr>collections = [COLLECTION_NAME \<mapsto> new_collection EMBEDDING_DIM COSINE], faults = [],
        calls = [GetCollection COLLECTION_NAME, CreateCollection COLLECTION_NAME EMBEDDING_DIM COSINE],
        stdout = [InitCollection, NotFoundCreating, Created, Prepared 10, Processing 1 10,
                  Processing 2 10, Processing 3 10, Processing 4 10, Processing 5 10]\<rparr>) \<and>
   map_option fst
     (ingest_files (embed_except ''d5'') ten_files
        (fresh_world :: nat world)) = Some (Inr ()) \<and>
   map_option (\<lambda>r. calls (snd r))
     (ingest_files (embed_except ''d5'') ten_files
        (fresh_world :: nat world)) =
     Some [GetCollection COLLECTION_NAME, CreateCollection COLLECTION_NAME EMBEDDING_DIM COSINE,
           Upsert COLLECTION_NAME
             [(IntId 1, 2, [(''title'', PyStr ''f01.txt''), (''content'', PyStr ''d1'')]),
              (IntId 2, 2, [(''title'', PyStr ''f02.txt''), (''content'', PyStr ''d2'')]),
              (IntId 3, 2, [(''title'', PyStr ''f03.txt''), (''content'', PyStr ''d3'')]),
              (IntId 4, 2, [(''title'', PyStr ''f04.txt''), (''content'', PyStr ''d4'')]),
              (IntId 5, 2, [(''title'', PyStr ''f06.txt''), (''content'', PyStr ''d6'')]),
              (IntId 6, 2, [(''title'', PyStr ''f07.txt''), (''content'', PyStr ''d7'')]),
              (IntId 7, 2, [(''title'', PyStr ''f08.txt''), (''content'', PyStr ''d8'')]),
              (IntId 8, 2, [(''title'', PyStr ''f09.txt''), (''content'', PyStr ''d9'')]),
              (IntId 9, 3, [(''title'', PyStr ''f10.txt''), (''content'', PyStr ''d10'')])]] \<and>
   map_option (\<lambda>r. filter (\<lambda>m. m = EmbeddingError (Failure ''embedding failed'') \<or> m = Loaded 9) (stdout (snd r)))
     (ingest_files (embed_except ''d5'') ten_files
        (fresh_world :: nat world)) =
     Some [EmbeddingError (Failure ''embedding failed''), Loaded 9]"
proof -
  have docs: "ingest_documents (embed_except ''d5'') uuid_stub COLLECTION_NAME ten_documents
     (fresh_world :: nat world) =
     (Inl (Failure ''embedding failed''),
      \<lparr>collections = [COLLECTION_NAME \<mapsto> new_collection EMBEDDING_DIM COSINE], faults = [],
        calls = [GetCollection COLLECTION_NAME, CreateCollection COLLECTION_NAME EMBEDDING_DIM COSINE],
        stdout = [InitCollection, NotFoundCreating, Created, Prepared 10, Processing 1 10,
                  Processing 2 10, Processing 3 10, Processing 4 10, Processing 5 10]\<rparr>)"
    by (simp add: ten_documents_def ingest_documents_def ingest_qdrant_ensure_collection_def
        embed_except_def world_eval Let_def)
  have files: "\<exists>cs. ingest_files (embed_except ''d5'') ten_files
        (fresh_world :: nat world) =
      Some (Inr (),
        \<lparr>collections = cs, faults = [],
          calls = [GetCollection COLLECTION_NAME, CreateCollection COLLECTION_NAME EMBEDDING_DIM COSINE,
           Upsert COLLECTION_NAME
             [(IntId 1, 2, [(''title'', PyStr ''f01.txt''), (''content'', PyStr ''d1'')]),
              (IntId 2, 2, [(''title'', PyStr ''f02.txt''), (''content'', PyStr ''d2'')]),
              (IntId 3, 2, [(''title'', PyStr ''f03.txt''), (''content'', PyStr ''d3'')]),
              (IntId 4, 2, [(''title'', PyStr ''f04.txt''), (''content'', PyStr ''d4'')]),
              (IntId 5, 2, [(''title'', PyStr ''f06.txt''), (''content'', PyStr ''d6'')]),
              (IntId 6, 2, [(''title'', PyStr ''f07.txt''), (''content'', PyStr ''d7'')]),
              (IntId 7, 2, [(''title'', PyStr ''f08.txt''), (''content'', PyStr ''d8'')]),
              (IntId 8, 2, [(''title'', PyStr ''f09.txt''), (''content'', PyStr ''d9'')]),
              (IntId 9, 3, [(''title'', PyStr ''f10.txt''), (''content'', PyStr ''d10'')])]],
          stdout = [IngestStart, InputDir, CollectionAbsent, CollectionCreated, FilesFound 10,
            FileHeader 1 ''f01.txt'', FileHeader 2 ''f02.txt'', FileHeader 3 ''f03.txt'',
            FileHeader 4 ''f04.txt'', FileHeader 5 ''f05.txt'',
            EmbeddingError (Failure ''embedding failed''),
            FileHeader 6 ''f06.txt'', FileHeader 7 ''f07.txt'', FileHeader 8 ''f08.txt'',
            FileHeader 9 ''f09.txt'', FileHeader 10 ''f10.txt'', Loaded 9]\<rparr>)"
    by (simp add: ten_files_def ingest_files_def ensure_collection_def split_eval embed_except_def
        basename_def world_eval batch_points_def)
  then obtain cs where "ingest_files (embed_except ''d5'') ten_files
        (fresh_world :: nat world) =
      Some (Inr (),
        \<lparr>collections = cs, faults = [],
          calls = [GetCollection COLLECTION_NAME, CreateCollection COLLECTION_NAME EMBEDDING_DIM COSINE,
           Upsert COLLECTION_NAME
             [(IntId 1, 2, [(''title'', PyStr ''f01.txt''), (''content'', PyStr ''d1'')]),
              (IntId 2, 2, [(''title'', PyStr ''f02.txt''), (''content'', PyStr ''d2'')]),
              (IntId 3, 2, [(''title'', PyStr ''f03.txt''), (''content'', PyStr ''d3'')]),
              (IntId 4, 2, [(''title'', PyStr ''f04.txt''), (''content'', PyStr ''d4'')]),
              (IntId 5, 2, [(''title'', PyStr ''f06.txt''), (''content'', PyStr ''d6'')]),
              (IntId 6, 2, [(''title'', PyStr ''f07.txt''), (''content'', PyStr ''d7'')]),
              (IntId 7, 2, [(''title'', PyStr ''f08.txt''), (''content'', PyStr ''d8'')]),
              (IntId 8, 2, [(''title'', PyStr ''f09.txt''), (''content'', PyStr ''d9'')]),
              (IntId 9, 3, [(''title'', PyStr ''f10.txt''), (''content'', PyStr ''d10'')])]],
          stdout = [IngestStart, InputDir, CollectionAbsent, CollectionCreated, FilesFound 10,
            FileHeader 1 ''f01.txt'', FileHeader 2 ''f02.txt'', FileHeader 3 ''f03.txt'',
            FileHeader 4 ''f04.txt'', FileHeader 5 ''f05.txt'',
            EmbeddingError (Failure ''embedding failed''),
            FileHeader 6 ''f06.txt'', FileHeader 7 ''f07.txt'', FileHeader 8 ''f08.txt'',
            FileHeader 9 ''f09.txt'', FileHeader 10 ''f10.txt'', Loaded 9]\<rparr>)" ..
  with docs show ?thesis by simp
qed

section \<open>Properties of the retrieval\<close>

text \<open>
  Claim C9: when the query is embedded and the search returns no point, \<open>search_qdrant\<close>
  returns the empty context with the message that nothing was found, and raises nothing.
\<close>

theorem search_qdrant_no_results:
  assumes "embed_text query_text = Inr query_vec"
    and "query_points COLLECTION_NAME query_vec top_k = Inr []"
  shows "search_qdrant embed_text query_points fmt query_text top_k = Inr ('''', NOTHING_FOUND)"
  using assms by (simp add: search_qdrant_def)

theorem search_qdrant_no_results_witness:
  "embed_except ''x'' ''what changes in 2026?'' = Inr 21 \<and>
   empty_search COLLECTION_NAME 21 5 = Inr [] \<and>
   search_qdrant (embed_except ''x'') empty_search fmt_stub ''what changes in 2026?'' 5 =
     Inr ('''', NOTHING_FOUND)"
proof -
  have e: "embed_except ''x'' ''what changes in 2026?'' = Inr 21"
    by (simp add: embed_except_def)
  have q: "empty_search COLLECTION_NAME 21 5 = Inr []"
    by (simp add: empty_search_def)
  from search_qdrant_no_results
         [of "embed_except ''x''" "''what changes in 2026?''" 21 empty_search 5 fmt_stub, OF e q] e q
  show ?thesis by simp
qed

end
